theory Spec2Isabelle
  imports Main
begin

section \<open>Data model of tfinit.py\<close>

text \<open>
  The script is a sequence of calls into the Azure management SDK. The SDK is not
  part of the repository, so every SDK operation is a field of the record \<open>sdk\<close>: the
  response the provider gives to that call, either a raised exception (\<open>Inl\<close>) or a
  value (\<open>Inr\<close>). A run is a function of these responses; it yields the trace of calls
  and console output it performed, and its outcome.
\<close>

datatype error =
    CloudError string
  | KeyError string
  | IndexError
  | OtherError string

text \<open>The argument \<open>vnet\<close> of \<open>azure_state_setup\<close>: only two attributes are read.\<close>

record vnet =
  orgName :: string
  location :: string

text \<open>Members of the SDK enumerations \<open>SkuName\<close> and \<open>Kind\<close> (azure.mgmt.storage.models).\<close>

datatype SkuName = standard_lrs | standard_grs | standard_ragrs | standard_zrs | premium_lrs

datatype Kind = storage | storage_v2 | blob_storage

record StorageAccountCreateParameters =
  sku :: SkuName
  kind :: Kind
  sa_location :: string

text \<open>The dictionary literal passed to \<open>vaults.create_or_update\<close> (lines 88-104).\<close>

record access_policy =
  ap_tenant_id :: string
  ap_object_id :: string
  ap_keys :: "string list"
  ap_secrets :: "string list"

record vault_params =
  vp_location :: string
  vp_sku_name :: string
  vp_tenant_id :: string
  vp_access_policies :: "access_policy list"

text \<open>A virtual network object as read by \<open>azure_peering\<close>, and the peering dictionary
  (lines 202-211).\<close>

record vnet_obj =
  vnet_id :: string
  address_prefixes :: "string list"

record peering_params =
  remote_virtual_network_id :: string
  allow_virtual_network_access :: bool
  allow_forwarded_traffic :: bool
  remote_address_prefixes :: "string list"

text \<open>The long-running-operation handle: the answer of the k-th call of \<open>done()\<close> and
  of the k-th call of \<open>status()\<close>.\<close>

record poller =
  poll_done :: "nat \<Rightarrow> bool"
  poll_status :: "nat \<Rightarrow> string"

text \<open>Everything a run does to the outside world, in order.\<close>

datatype event =
    Print string
  | Sleep nat
  | SpLogin string string string
  | ProvidersRegister string string
  | RgCheckExistence string string
  | RgCreateOrUpdate string string string
  | VaultsList string
  | VaultsCreateOrUpdate string string string vault_params
  | StorageAccountsList string
  | CheckNameAvailability string string
  | StorageAccountsCreate string string string StorageAccountCreateParameters
  | StorageCreateResult string
  | BlobContainersCreate string string string string
  | ListKeys string string string
  | ListContainers string string
  | SetSecret string string string
  | VirtualNetworksGet string string string
  | PeeringCreateOrUpdate string string string string peering_params

record sdk =
  environ :: "string \<rightharpoonup> string"
  sp_login :: "string \<Rightarrow> string \<Rightarrow> string \<Rightarrow> error + unit"
  providers_register :: "string \<Rightarrow> string \<Rightarrow> error + unit"
  rg_check_existence :: "string \<Rightarrow> string \<Rightarrow> error + bool"
  rg_create_or_update :: "string \<Rightarrow> string \<Rightarrow> string \<Rightarrow> error + unit"
  vaults_list :: "string \<Rightarrow> error + string list"
  vaults_create_or_update ::
    "string \<Rightarrow> string \<Rightarrow> string \<Rightarrow> vault_params \<Rightarrow> error + unit"
  storage_accounts_list :: "string \<Rightarrow> error + string list"
  check_name_availability :: "string \<Rightarrow> string \<Rightarrow> error + bool"
  storage_accounts_create ::
    "string \<Rightarrow> string \<Rightarrow> string \<Rightarrow> StorageAccountCreateParameters \<Rightarrow> error + unit"
  storage_create_result :: "string \<Rightarrow> error + unit"
  blob_containers_create :: "string \<Rightarrow> string \<Rightarrow> string \<Rightarrow> string \<Rightarrow> error + unit"
  list_keys :: "string \<Rightarrow> string \<Rightarrow> string \<Rightarrow> error + (string \<times> string) list"
  list_containers :: "string \<Rightarrow> string \<Rightarrow> error + string list"
  set_secret :: "string \<Rightarrow> string \<Rightarrow> string \<Rightarrow> error + unit"
  virtual_networks_get :: "string \<Rightarrow> string \<Rightarrow> string \<Rightarrow> error + vnet_obj"
  peering_create_or_update ::
    "string \<Rightarrow> string \<Rightarrow> string \<Rightarrow> string \<Rightarrow> peering_params \<Rightarrow> error + poller"

section \<open>Runs: a trace and an outcome\<close>

type_synonym 'a prog = "event list \<times> (error + 'a)"

definition ret :: "'a \<Rightarrow> 'a prog" where
  "ret x = ([], Inr x)"

definition raise :: "error \<Rightarrow> 'a prog" where
  "raise e = ([], Inl e)"

text \<open>Sequencing: an exception of the first part ends the run with the trace so far.\<close>

definition bind_prog :: "'a prog \<Rightarrow> ('a \<Rightarrow> 'b prog) \<Rightarrow> 'b prog" where
  "bind_prog m f =
     (case m of
        (t, Inl e) \<Rightarrow> (t, Inl e)
      | (t, Inr x) \<Rightarrow> (case f x of (t', r) \<Rightarrow> (t @ t', r)))"

text \<open>An SDK call: the call is recorded, its outcome is the provider's response.\<close>

definition call :: "event \<Rightarrow> error + 'a \<Rightarrow> 'a prog" where
  "call ev resp = ([ev], resp)"

definition print :: "string \<Rightarrow> unit prog" where
  "print s = ([Print s], Inr ())"

text \<open>\<open>os.environ[k]\<close>: a missing variable raises \<open>KeyError\<close>.\<close>

definition getenv :: "sdk \<Rightarrow> string \<Rightarrow> string prog" where
  "getenv env k = (case environ env k of None \<Rightarrow> raise (KeyError k) | Some v \<Rightarrow> ret v)"

section \<open>Strings\<close>

text \<open>Python's \<open>sub in s\<close> on strings: \<open>sub\<close> occurs as a contiguous block of \<open>s\<close>.\<close>

fun startswith :: "string \<Rightarrow> string \<Rightarrow> bool" where
  "startswith s [] = True"
| "startswith [] (c # cs) = False"
| "startswith (x # xs) (c # cs) = (x = c \<and> startswith xs cs)"

fun str_in :: "string \<Rightarrow> string \<Rightarrow> bool" where
  "str_in sub [] = (sub = [])"
| "str_in sub (x # xs) = (startswith (x # xs) sub \<or> str_in sub xs)"

section \<open>random_generator (lines 30-31)\<close>

text \<open>
  \<open>random.choice(chars)\<close> is \<open>chars[randbelow(len(chars))]\<close> and raises \<open>IndexError\<close>
  on an empty sequence. The random source is the parameter \<open>rnd\<close>: its k-th draw,
  reduced below \<open>len(chars)\<close>, is the index chosen at iteration k.
\<close>

definition ascii_lowercase :: string where
  "ascii_lowercase = ''abcdefghijklmnopqrstuvwxyz''"

definition digits :: string where
  "digits = ''0123456789''"

definition random_choice :: "string \<Rightarrow> nat \<Rightarrow> error + char" where
  "random_choice chars r =
     (if chars = [] then Inl IndexError else Inr (chars ! (r mod length chars)))"

fun join_choices :: "string \<Rightarrow> (nat \<Rightarrow> nat) \<Rightarrow> nat list \<Rightarrow> error + string" where
  "join_choices chars rnd [] = Inr []"
| "join_choices chars rnd (x # xs) =
     (case random_choice chars (rnd x) of
        Inl e \<Rightarrow> Inl e
      | Inr c \<Rightarrow> (case join_choices chars rnd xs of
                    Inl e \<Rightarrow> Inl e
                  | Inr cs \<Rightarrow> Inr (c # cs)))"

definition random_generator :: "nat \<Rightarrow> string \<Rightarrow> (nat \<Rightarrow> nat) \<Rightarrow> error + string" where
  "random_generator sz chars rnd = join_choices chars rnd [0..<sz]"

text \<open>The call \<open>random_generator()\<close> of line 37, with both defaults.\<close>

definition random_generator_default :: "(nat \<Rightarrow> nat) \<Rightarrow> error + string" where
  "random_generator_default rnd = random_generator 6 (ascii_lowercase @ digits) rnd"

section \<open>Derived names (lines 35-38, 56)\<close>

definition keyvault_name_of :: "vnet \<Rightarrow> string" where
  "keyvault_name_of v = orgName v @ ''-tfstate-kv''"

definition storage_prefix_of :: "vnet \<Rightarrow> string" where
  "storage_prefix_of v = orgName v @ ''tfstate''"

definition resource_group_of :: "vnet \<Rightarrow> string" where
  "resource_group_of v = orgName v @ ''-tfstate-rg''"

definition vault_uri_of :: "vnet \<Rightarrow> string" where
  "vault_uri_of v = ''https://'' @ keyvault_name_of v @ ''.vault.azure.net/''"

definition candidate_name :: "vnet \<Rightarrow> (nat \<Rightarrow> nat) \<Rightarrow> error + string" where
  "candidate_name v rnd =
     (case random_generator_default rnd of
        Inl e \<Rightarrow> Inl e
      | Inr suffix \<Rightarrow> Inr (storage_prefix_of v @ suffix))"

section \<open>azure_state_setup (lines 33-182)\<close>

definition lift :: "error + 'a \<Rightarrow> 'a prog" where
  "lift r = ([], r)"

text \<open>Lines 40-45: the four environment lookups, left to right, then the login that
  the constructor of \<open>ServicePrincipalCredentials\<close> performs.\<close>

definition service_principal_credentials :: "sdk \<Rightarrow> unit prog" where
  "service_principal_credentials env =
     bind_prog (getenv env ''ARM_CLIENT_ID'') (\<lambda>client_id.
     bind_prog (getenv env ''ARM_OBJECT_ID'') (\<lambda>object_id.
     bind_prog (getenv env ''ARM_CLIENT_SECRET'') (\<lambda>secret.
     bind_prog (getenv env ''ARM_TENANT_ID'') (\<lambda>tenant.
     call (SpLogin client_id secret tenant) (sp_login env client_id secret tenant)))))"

text \<open>Lines 51-55: \<open>ClientSecretCredential\<close> only stores its arguments.\<close>

definition client_secret_credential :: "sdk \<Rightarrow> unit prog" where
  "client_secret_credential env =
     bind_prog (getenv env ''ARM_TENANT_ID'') (\<lambda>tenant.
     bind_prog (getenv env ''ARM_CLIENT_ID'') (\<lambda>client_id.
     bind_prog (getenv env ''ARM_CLIENT_SECRET'') (\<lambda>secret.
     ret ())))"

text \<open>Lines 63-65.\<close>

definition ensure_resource_group :: "sdk \<Rightarrow> string \<Rightarrow> string \<Rightarrow> string \<Rightarrow> unit prog" where
  "ensure_resource_group env sub resource_group loc =
     bind_prog (call (RgCheckExistence sub resource_group)
                     (rg_check_existence env sub resource_group)) (\<lambda>exists.
     if \<not> exists
     then call (RgCreateOrUpdate sub resource_group loc)
               (rg_create_or_update env sub resource_group loc)
     else ret ())"

text \<open>The counting loops of lines 72-73 and 112-113.\<close>

fun count_items :: "'a list \<Rightarrow> nat \<Rightarrow> nat" where
  "count_items [] i = i"
| "count_items (item # items) i = count_items items (i + 1)"

text \<open>Lines 77-80: the loop runs over the whole listing.\<close>

fun scan_vaults :: "string \<Rightarrow> string list \<Rightarrow> bool \<Rightarrow> bool prog" where
  "scan_vaults keyvault_name [] keyvault_exists = ret keyvault_exists"
| "scan_vaults keyvault_name (item # items) keyvault_exists =
     (if item = keyvault_name
      then bind_prog
             (print (''*** The keyvault '' @ keyvault_name @
                     '' already exists, bypassing creation ***''))
             (\<lambda>_. scan_vaults keyvault_name items True)
      else scan_vaults keyvault_name items keyvault_exists)"

text \<open>Lines 69-80: the value of \<open>keyvault_exists\<close>.\<close>

definition discover_keyvault :: "sdk \<Rightarrow> string \<Rightarrow> string \<Rightarrow> bool prog" where
  "discover_keyvault env sub keyvault_name =
     bind_prog (call (VaultsList sub) (vaults_list env sub)) (\<lambda>vaults.
     if count_items vaults 0 > 0
     then bind_prog (call (VaultsList sub) (vaults_list env sub)) (\<lambda>vaults.
          scan_vaults keyvault_name vaults False)
     else ret False)"

text \<open>Lines 82-105.\<close>

definition create_keyvault ::
  "sdk \<Rightarrow> string \<Rightarrow> string \<Rightarrow> string \<Rightarrow> string \<Rightarrow> unit prog" where
  "create_keyvault env sub resource_group keyvault_name loc =
     bind_prog
       (print (''*** The keyvault '' @ keyvault_name @ '' doesn'' @ [CHR 0x27] @
               ''t exist, creating ***'')) (\<lambda>_.
     bind_prog (getenv env ''ARM_TENANT_ID'') (\<lambda>tenant.
     bind_prog (getenv env ''ARM_TENANT_ID'') (\<lambda>policy_tenant.
     bind_prog (getenv env ''ARM_OBJECT_ID'') (\<lambda>policy_object.
     call (VaultsCreateOrUpdate sub resource_group keyvault_name
             \<lparr>vp_location = loc, vp_sku_name = ''standard'', vp_tenant_id = tenant,
              vp_access_policies =
                [\<lparr>ap_tenant_id = policy_tenant, ap_object_id = policy_object,
                  ap_keys = [''all''], ap_secrets = [''all'']\<rparr>]\<rparr>)
          (vaults_create_or_update env sub resource_group keyvault_name
             \<lparr>vp_location = loc, vp_sku_name = ''standard'', vp_tenant_id = tenant,
              vp_access_policies =
                [\<lparr>ap_tenant_id = policy_tenant, ap_object_id = policy_object,
                  ap_keys = [''all''], ap_secrets = [''all'']\<rparr>]\<rparr>)))))"

definition ensure_keyvault ::
  "sdk \<Rightarrow> string \<Rightarrow> string \<Rightarrow> string \<Rightarrow> string \<Rightarrow> unit prog" where
  "ensure_keyvault env sub resource_group keyvault_name loc =
     bind_prog (discover_keyvault env sub keyvault_name) (\<lambda>keyvault_exists.
     if \<not> keyvault_exists
     then create_keyvault env sub resource_group keyvault_name loc
     else ret ())"

text \<open>Lines 117-123: every match overwrites \<open>storage_account_name\<close>; the loop has no
  \<open>break\<close>.\<close>

fun scan_storage_accounts :: "string list \<Rightarrow> string \<times> bool \<Rightarrow> (string \<times> bool) prog" where
  "scan_storage_accounts [] st = ret st"
| "scan_storage_accounts (item # items) (storage_account_name, storage_account_exists) =
     (if str_in ''tfstate'' item
      then bind_prog
             (print ''*** The tfstate storage account exists, bypassing storage build ***'')
             (\<lambda>_. scan_storage_accounts items (item, True))
      else scan_storage_accounts items (storage_account_name, storage_account_exists))"

text \<open>Lines 109-123: the values of \<open>storage_account_name\<close> and
  \<open>storage_account_exists\<close> after discovery.\<close>

definition discover_storage_account :: "sdk \<Rightarrow> string \<Rightarrow> string \<Rightarrow> (string \<times> bool) prog" where
  "discover_storage_account env sub storage_account_name =
     bind_prog (call (StorageAccountsList sub) (storage_accounts_list env sub))
       (\<lambda>storage_accounts.
     if count_items storage_accounts 0 > 0
     then bind_prog (call (StorageAccountsList sub) (storage_accounts_list env sub))
            (\<lambda>storage_accounts.
          scan_storage_accounts storage_accounts (storage_account_name, False))
     else ret (storage_account_name, False))"

text \<open>The dictionary comprehension of lines 149 and 160, and a subscript on it.\<close>

definition keys_dict :: "(string \<times> string) list \<Rightarrow> (string \<rightharpoonup> string)" where
  "keys_dict kvs = foldl (\<lambda>m (k, v). m(k \<mapsto> v)) Map.empty kvs"

definition subscript :: "(string \<rightharpoonup> string) \<Rightarrow> string \<Rightarrow> string prog" where
  "subscript d k = (case d k of None \<Rightarrow> raise (KeyError k) | Some v \<Rightarrow> ret v)"

text \<open>Lines 148-149 and 159-160.\<close>

definition fetch_keys :: "sdk \<Rightarrow> string \<Rightarrow> string \<Rightarrow> string \<Rightarrow> (string \<rightharpoonup> string) prog" where
  "fetch_keys env sub resource_group storage_account_name =
     bind_prog (call (ListKeys sub resource_group storage_account_name)
                     (list_keys env sub resource_group storage_account_name))
       (\<lambda>storage_keys. ret (keys_dict storage_keys))"

text \<open>Lines 125-155, the branch \<open>not storage_account_exists\<close>. The result \<open>None\<close> is
  the bare \<open>return\<close> of line 155, \<open>Some keys\<close> falls through to line 175.\<close>

definition build_storage_account ::
  "sdk \<Rightarrow> string \<Rightarrow> string \<Rightarrow> string \<Rightarrow> string \<Rightarrow> (string \<rightharpoonup> string) option prog" where
  "build_storage_account env sub resource_group loc storage_account_name =
     bind_prog (print (''Checking if storage account name '' @ storage_account_name @
                       '' is available'')) (\<lambda>_.
     bind_prog (call (CheckNameAvailability sub storage_account_name)
                     (check_name_availability env sub storage_account_name))
       (\<lambda>stg_name_availability.
     if stg_name_availability
     then
       bind_prog (print (''The storage account name '' @ storage_account_name @
                         '' is available, building account.'')) (\<lambda>_.
       bind_prog (call (StorageAccountsCreate sub resource_group storage_account_name
                          \<lparr>sku = standard_ragrs, kind = storage, sa_location = loc\<rparr>)
                       (storage_accounts_create env sub resource_group storage_account_name
                          \<lparr>sku = standard_ragrs, kind = storage, sa_location = loc\<rparr>)) (\<lambda>_.
       bind_prog (call (StorageCreateResult storage_account_name)
                       (storage_create_result env storage_account_name)) (\<lambda>_.
       bind_prog (call (BlobContainersCreate sub resource_group storage_account_name
                          ''tfstate'')
                       (blob_containers_create env sub resource_group storage_account_name
                          ''tfstate'')) (\<lambda>_.
       bind_prog (print ''The tfstate container added to the storage account'') (\<lambda>_.
       bind_prog (fetch_keys env sub resource_group storage_account_name) (\<lambda>keys.
       ret (Some keys)))))))
     else
       bind_prog (print (''The storage account '' @ storage_account_name @
                         '' is not available.'')) (\<lambda>_.
       ret None)))"

text \<open>Lines 156-173, the branch \<open>storage_account_exists\<close>.\<close>

definition confirm_container ::
  "sdk \<Rightarrow> string \<Rightarrow> string \<Rightarrow> string \<Rightarrow> (string \<rightharpoonup> string) option prog" where
  "confirm_container env sub resource_group storage_account_name =
     bind_prog (fetch_keys env sub resource_group storage_account_name) (\<lambda>keys.
     bind_prog (print ''Confirming container for tfstate'') (\<lambda>_.
     bind_prog (subscript keys ''key1'') (\<lambda>account_key.
     bind_prog (call (ListContainers storage_account_name account_key)
                     (list_containers env storage_account_name account_key))
       (\<lambda>containers.
     bind_prog
       (if ''tfstate'' \<notin> set containers
        then bind_prog (print (''tfstate container doesn'' @ [CHR 0x27] @
                               ''t exist, creating container.'')) (\<lambda>_.
             call (BlobContainersCreate sub resource_group storage_account_name ''tfstate'')
                  (blob_containers_create env sub resource_group storage_account_name
                     ''tfstate''))
        else print ''tfstate container already exists.'') (\<lambda>_.
     ret (Some keys))))))"

text \<open>Lines 177-182.\<close>

definition store_keys ::
  "sdk \<Rightarrow> string \<Rightarrow> (string \<rightharpoonup> string) \<Rightarrow> string \<Rightarrow> (string \<times> string \<times> string) prog" where
  "store_keys env vault_uri keys storage_account_name =
     bind_prog (subscript keys ''key1'') (\<lambda>k1.
     bind_prog (call (SetSecret vault_uri ''tfstate1'' k1)
                     (set_secret env vault_uri ''tfstate1'' k1)) (\<lambda>_.
     bind_prog (subscript keys ''key2'') (\<lambda>k2.
     bind_prog (call (SetSecret vault_uri ''tfstate2'' k2)
                     (set_secret env vault_uri ''tfstate2'' k2)) (\<lambda>_.
     bind_prog (subscript keys ''key1'') (\<lambda>r1.
     bind_prog (subscript keys ''key2'') (\<lambda>r2.
     ret (r1, r2, storage_account_name)))))))"

text \<open>Lines 125-182: what follows the discovery, given the values it left in
  \<open>storage_account_name\<close> and \<open>storage_account_exists\<close>.\<close>

definition after_discovery ::
  "sdk \<Rightarrow> string \<Rightarrow> string \<Rightarrow> string \<Rightarrow> string \<Rightarrow> string \<Rightarrow> bool
     \<Rightarrow> (string \<times> string \<times> string) option prog" where
  "after_discovery env sub resource_group loc vault_uri storage_account_name
     storage_account_exists =
     bind_prog
       (if \<not> storage_account_exists
        then build_storage_account env sub resource_group loc storage_account_name
        else confirm_container env sub resource_group storage_account_name) (\<lambda>branch.
     case branch of
       None \<Rightarrow> ret None
     | Some keys \<Rightarrow>
         bind_prog (store_keys env vault_uri keys storage_account_name) (\<lambda>triple.
         ret (Some triple)))"

text \<open>Lines 107-182: everything from the storage account discovery on.\<close>

definition storage_phase ::
  "sdk \<Rightarrow> string \<Rightarrow> string \<Rightarrow> string \<Rightarrow> string \<Rightarrow> string
     \<Rightarrow> (string \<times> string \<times> string) option prog" where
  "storage_phase env sub resource_group loc vault_uri candidate =
     bind_prog (discover_storage_account env sub candidate)
       (\<lambda>(storage_account_name, storage_account_exists).
     after_discovery env sub resource_group loc vault_uri storage_account_name
       storage_account_exists)"

text \<open>The whole function. The outcome \<open>Inr None\<close> is Python's \<open>None\<close>, \<open>Inr (Some t)\<close>
  the returned tuple, \<open>Inl e\<close> an exception leaving the function.\<close>

definition azure_state_setup ::
  "sdk \<Rightarrow> vnet \<Rightarrow> string \<Rightarrow> (nat \<Rightarrow> nat) \<Rightarrow> (string \<times> string \<times> string) option prog" where
  "azure_state_setup env v ops_subscription rnd =
     bind_prog (lift (candidate_name v rnd)) (\<lambda>storage_account_name.
     bind_prog (service_principal_credentials env) (\<lambda>_.
     bind_prog (client_secret_credential env) (\<lambda>_.
     bind_prog (call (ProvidersRegister ops_subscription ''Microsoft.KeyVault'')
                     (providers_register env ops_subscription ''Microsoft.KeyVault'')) (\<lambda>_.
     bind_prog (ensure_resource_group env ops_subscription (resource_group_of v)
                  (location v)) (\<lambda>_.
     bind_prog (ensure_keyvault env ops_subscription (resource_group_of v)
                  (keyvault_name_of v) (location v)) (\<lambda>_.
     storage_phase env ops_subscription (resource_group_of v) (location v)
       (vault_uri_of v) storage_account_name))))))"

section \<open>azure_peering (lines 184-218)\<close>

text \<open>Lines 186-190: three environment lookups, then the login.\<close>

definition peering_credentials :: "sdk \<Rightarrow> unit prog" where
  "peering_credentials env =
     bind_prog (getenv env ''ARM_CLIENT_ID'') (\<lambda>client_id.
     bind_prog (getenv env ''ARM_CLIENT_SECRET'') (\<lambda>secret.
     bind_prog (getenv env ''ARM_TENANT_ID'') (\<lambda>tenant.
     call (SpLogin client_id secret tenant) (sp_login env client_id secret tenant))))"

text \<open>Lines 194-195, before the \<open>try\<close>.\<close>

definition get_vnets ::
  "sdk \<Rightarrow> string \<Rightarrow> string \<Rightarrow> string \<Rightarrow> string \<Rightarrow> string \<Rightarrow> string
     \<Rightarrow> (vnet_obj \<times> vnet_obj) prog" where
  "get_vnets env sub1 rg1 vnet1 sub2 rg2 vnet2 =
     bind_prog (call (VirtualNetworksGet sub1 rg1 vnet1)
                     (virtual_networks_get env sub1 rg1 vnet1)) (\<lambda>vnet1_obj.
     bind_prog (call (VirtualNetworksGet sub2 rg2 vnet2)
                     (virtual_networks_get env sub2 rg2 vnet2)) (\<lambda>vnet2_obj.
     ret (vnet1_obj, vnet2_obj)))"

text \<open>
  Lines 213-215: \<open>k\<close> counts the iterations already done, \<open>acc\<close> is what they did.
  The loop has no other exit than \<open>done()\<close>; a run that stays in it has the value
  \<open>None\<close>.
\<close>

partial_function (option) wait_peering :: "poller \<Rightarrow> nat \<Rightarrow> event list \<Rightarrow> event list option"
where
  "wait_peering p k acc =
     (if \<not> poll_done p k
      then wait_peering p (k + 1) (acc @ [Sleep 2, Print (''Peering: '' @ poll_status p k)])
      else Some acc)"

definition hubpeering_params :: "vnet_obj \<Rightarrow> peering_params" where
  "hubpeering_params vnet2_obj =
     \<lparr>remote_virtual_network_id = vnet_id vnet2_obj,
      allow_virtual_network_access = True,
      allow_forwarded_traffic = True,
      remote_address_prefixes = address_prefixes vnet2_obj\<rparr>"

text \<open>Lines 198-216: the body of the \<open>try\<close>.\<close>

definition try_peering ::
  "sdk \<Rightarrow> string \<Rightarrow> string \<Rightarrow> string \<Rightarrow> vnet_obj \<Rightarrow> unit prog option" where
  "try_peering env sub1 rg1 vnet1 vnet2_obj =
     (case peering_create_or_update env sub1 rg1 vnet1 ''hubpeering''
             (hubpeering_params vnet2_obj) of
        Inl e \<Rightarrow>
          Some ([PeeringCreateOrUpdate sub1 rg1 vnet1 ''hubpeering''
                   (hubpeering_params vnet2_obj)], Inl e)
      | Inr async_vnet_peering \<Rightarrow>
          (case wait_peering async_vnet_peering 0 [] of
             None \<Rightarrow> None
           | Some polled \<Rightarrow>
               Some ([PeeringCreateOrUpdate sub1 rg1 vnet1 ''hubpeering''
                        (hubpeering_params vnet2_obj)] @ polled @
                     [Print '' ********** peering completed **********''], Inr ())))"

text \<open>Lines 217-218: \<open>except CloudError as ex: print(str(ex))\<close>.\<close>

fun except_cloud_error :: "unit prog \<Rightarrow> unit prog" where
  "except_cloud_error (t, Inl (CloudError msg)) = (t @ [Print msg], Inr ())"
| "except_cloud_error (t, r) = (t, r)"

text \<open>Lines 186-195: everything before the \<open>try\<close>.\<close>

definition before_try ::
  "sdk \<Rightarrow> string \<Rightarrow> string \<Rightarrow> string \<Rightarrow> string \<Rightarrow> string \<Rightarrow> string
     \<Rightarrow> (vnet_obj \<times> vnet_obj) prog" where
  "before_try env sub1 rg1 vnet1 sub2 rg2 vnet2 =
     bind_prog (peering_credentials env)
       (\<lambda>_. get_vnets env sub1 rg1 vnet1 sub2 rg2 vnet2)"

text \<open>The whole function: \<open>None\<close> when it never returns, otherwise its trace and
  whether it returned (\<open>Inr ()\<close>) or let an exception through (\<open>Inl e\<close>).\<close>

definition azure_peering ::
  "sdk \<Rightarrow> string \<Rightarrow> string \<Rightarrow> string \<Rightarrow> string \<Rightarrow> string \<Rightarrow> string \<Rightarrow> unit prog option" where
  "azure_peering env sub1 rg1 vnet1 sub2 rg2 vnet2 =
     (case before_try env sub1 rg1 vnet1 sub2 rg2 vnet2 of
        (t, Inl e) \<Rightarrow> Some (t, Inl e)
      | (t, Inr (vnet1_obj, vnet2_obj)) \<Rightarrow>
          (case try_peering env sub1 rg1 vnet1 vnet2_obj of
             None \<Rightarrow> None
           | Some body \<Rightarrow>
               (case except_cloud_error body of (t', r) \<Rightarrow> Some (t @ t', r))))"

section \<open>Observations on traces and concrete subscriptions\<close>

text \<open>What \<open>n\<close> iterations of the polling loop do, starting at iteration \<open>k\<close>: each
  sleeps two seconds and prints the status it reads.\<close>

fun poll_trace :: "poller \<Rightarrow> nat \<Rightarrow> nat \<Rightarrow> event list" where
  "poll_trace p k 0 = []"
| "poll_trace p k (Suc n) =
     [Sleep 2, Print (''Peering: '' @ poll_status p k)] @ poll_trace p (Suc k) n"

text \<open>The calls that create a resource.\<close>

fun is_creation :: "event \<Rightarrow> bool" where
  "is_creation (RgCreateOrUpdate s g l) = True"
| "is_creation (VaultsCreateOrUpdate s g n ps) = True"
| "is_creation (StorageAccountsCreate s g n ps) = True"
| "is_creation (BlobContainersCreate s g n c) = True"
| "is_creation ev = False"

text \<open>The secret writes of a trace: vault, secret name, value.\<close>

fun secret_of :: "event \<Rightarrow> (string \<times> string \<times> string) option" where
  "secret_of (SetSecret u n x) = Some (u, n, x)"
| "secret_of ev = None"

definition secrets_written :: "event list \<Rightarrow> (string \<times> string \<times> string) list" where
  "secrets_written tr = List.map_filter secret_of tr"

fun is_peering_call :: "event \<Rightarrow> bool" where
  "is_peering_call (PeeringCreateOrUpdate s g n pn ps) = True"
| "is_peering_call ev = False"

text \<open>The discovery rule of line 118 on a whole listing: the matching names, in
  listing order.\<close>

definition tfstate_accounts :: "string list \<Rightarrow> string list" where
  "tfstate_accounts accts = filter (str_in ''tfstate'') accts"

text \<open>A fresh subscription in which every call succeeds: no resource group, no
  vault, no storage account; the peering operation is done at its third poll.\<close>

definition fresh_subscription :: sdk where
  "fresh_subscription =
     \<lparr>environ = [''ARM_CLIENT_ID'' \<mapsto> ''cid'', ''ARM_OBJECT_ID'' \<mapsto> ''oid'',
                 ''ARM_CLIENT_SECRET'' \<mapsto> ''pw'', ''ARM_TENANT_ID'' \<mapsto> ''tid''],
      sp_login = (\<lambda>c s t. Inr ()),
      providers_register = (\<lambda>s n. Inr ()),
      rg_check_existence = (\<lambda>s g. Inr False),
      rg_create_or_update = (\<lambda>s g l. Inr ()),
      vaults_list = (\<lambda>s. Inr []),
      vaults_create_or_update = (\<lambda>s g n ps. Inr ()),
      storage_accounts_list = (\<lambda>s. Inr []),
      check_name_availability = (\<lambda>s n. Inr True),
      storage_accounts_create = (\<lambda>s g n ps. Inr ()),
      storage_create_result = (\<lambda>n. Inr ()),
      blob_containers_create = (\<lambda>s g n c. Inr ()),
      list_keys = (\<lambda>s g n. Inr [(''key1'', ''K1'' @ n), (''key2'', ''K2'' @ n)]),
      list_containers = (\<lambda>n k. Inr []),
      set_secret = (\<lambda>u n x. Inr ()),
      virtual_networks_get =
        (\<lambda>s g n. Inr \<lparr>vnet_id = n, address_prefixes = [''10.'' @ n @ ''.0.0/16'']\<rparr>),
      peering_create_or_update =
        (\<lambda>s g n pn ps. Inr \<lparr>poll_done = (\<lambda>k. 2 \<le> k),
                             poll_status = (\<lambda>k. ''InProgress'')\<rparr>)\<rparr>"

definition acme :: vnet where
  "acme = \<lparr>orgName = ''acme'', location = ''westus''\<rparr>"

text \<open>Two operation handles: one done at its third poll, one never done.\<close>

definition slow_poller :: poller where
  "slow_poller = \<lparr>poll_done = (\<lambda>k. 2 \<le> k), poll_status = (\<lambda>k. ''InProgress'')\<rparr>"

definition stuck_poller :: poller where
  "stuck_poller = \<lparr>poll_done = (\<lambda>k. False), poll_status = (\<lambda>k. ''InProgress'')\<rparr>"

text \<open>Lines 40-105 taken together: what runs before the storage account discovery.\<close>

definition prelude :: "sdk \<Rightarrow> vnet \<Rightarrow> string \<Rightarrow> unit prog" where
  "prelude env v ops_subscription =
     bind_prog (service_principal_credentials env) (\<lambda>_.
     bind_prog (client_secret_credential env) (\<lambda>_.
     bind_prog (call (ProvidersRegister ops_subscription ''Microsoft.KeyVault'')
                     (providers_register env ops_subscription ''Microsoft.KeyVault'')) (\<lambda>_.
     bind_prog (ensure_resource_group env ops_subscription (resource_group_of v)
                  (location v)) (\<lambda>_.
     ensure_keyvault env ops_subscription (resource_group_of v)
       (keyvault_name_of v) (location v)))))"

text \<open>The calls on the storage account, its containers and the secrets.\<close>

fun storage_event :: "event \<Rightarrow> bool" where
  "storage_event (StorageAccountsList s) = True"
| "storage_event (CheckNameAvailability s n) = True"
| "storage_event (StorageAccountsCreate s g n ps) = True"
| "storage_event (StorageCreateResult n) = True"
| "storage_event (BlobContainersCreate s g n c) = True"
| "storage_event (ListKeys s g n) = True"
| "storage_event (ListContainers n k) = True"
| "storage_event (SetSecret u n x) = True"
| "storage_event ev = False"

text \<open>The suffix that \<open>random_generator()\<close> returns for the random source \<open>rnd\<close>.\<close>

definition suffix_of :: "(nat \<Rightarrow> nat) \<Rightarrow> string" where
  "suffix_of rnd = map (\<lambda>k. (ascii_lowercase @ digits) ! (rnd k mod 36)) [0..<6]"

text \<open>A subscription that lists two storage accounts, the second with a name built by
  an earlier run.\<close>

definition listed_subscription :: sdk where
  "listed_subscription =
     fresh_subscription\<lparr>storage_accounts_list := (\<lambda>s. Inr [''other'', ''acmetfstateabcdef''])\<rparr>"

text \<open>The calls that write to the storage side or to the vault's secrets.\<close>

fun storage_write :: "event \<Rightarrow> bool" where
  "storage_write (StorageAccountsCreate s g n ps) = True"
| "storage_write (BlobContainersCreate s g n c) = True"
| "storage_write (SetSecret u n x) = True"
| "storage_write ev = False"

text \<open>The account name that lines 109-123 resolve for a listing and a candidate.\<close>

definition resolved_name :: "string list \<Rightarrow> string \<Rightarrow> string" where
  "resolved_name accts candidate =
     (if tfstate_accounts accts = [] then candidate else last (tfstate_accounts accts))"

text \<open>A fresh subscription whose provider refuses to list storage keys.\<close>

definition keyless_subscription :: sdk where
  "keyless_subscription =
     fresh_subscription\<lparr>list_keys := (\<lambda>s g n. Inl (CloudError ''AuthorizationFailed''))\<rparr>"

text \<open>A subscription in which everything exists already: the resource group, the
  vault of the derived name, a storage account of a name an earlier run built, and its
  container.\<close>

definition settled_subscription :: sdk where
  "settled_subscription =
     fresh_subscription\<lparr>
       rg_check_existence := (\<lambda>s g. Inr True),
       vaults_list := (\<lambda>s. Inr [''acme-tfstate-kv'']),
       storage_accounts_list := (\<lambda>s. Inr [''other'', ''acmetfstateabcdef'']),
       list_containers := (\<lambda>n k. Inr [''tfstate''])\<rparr>"

text \<open>The same with a second matching account listed last, which has no container.\<close>

definition crowded_subscription :: sdk where
  "crowded_subscription =
     settled_subscription\<lparr>
       storage_accounts_list := (\<lambda>s. Inr [''acmetfstateabcdef'', ''oldtfstatebackup'']),
       list_containers :=
         (\<lambda>n k. if n = ''acmetfstateabcdef'' then Inr [''tfstate''] else Inr [])\<rparr>"

text \<open>A fresh subscription whose provider reports every account name as taken.\<close>

definition taken_name_subscription :: sdk where
  "taken_name_subscription =
     fresh_subscription\<lparr>check_name_availability := (\<lambda>s n. Inr False)\<rparr>"

text \<open>A subscription that lists a vault whose name only contains the derived vault name,
  and a storage account whose name only contains \<open>tfstate\<close>.\<close>

definition near_miss_subscription :: sdk where
  "near_miss_subscription =
     fresh_subscription\<lparr>
       vaults_list := (\<lambda>s. Inr [''xacme-tfstate-kv'']),
       storage_accounts_list := (\<lambda>s. Inr [''oldtfstatebackup''])\<rparr>"

text \<open>A subscription in which the virtual networks cannot be read, and one in which
  the provider refuses the peering.\<close>

definition missing_vnet_subscription :: sdk where
  "missing_vnet_subscription =
     fresh_subscription\<lparr>
       virtual_networks_get := (\<lambda>s g n. Inl (CloudError ''ResourceNotFound''))\<rparr>"

definition refusing_subscription :: sdk where
  "refusing_subscription =
     fresh_subscription\<lparr>
       peering_create_or_update :=
         (\<lambda>s g n pn ps. Inl (CloudError ''AddressSpaceOverlap''))\<rparr>"

text \<open>The first virtual network can be read, the second cannot.\<close>

definition missing_spoke_subscription :: sdk where
  "missing_spoke_subscription =
     fresh_subscription\<lparr>
       virtual_networks_get :=
         (\<lambda>s g n. if n = ''spoke'' then Inl (CloudError ''ResourceNotFound'')
                    else Inr \<lparr>vnet_id = n, address_prefixes = []\<rparr>)\<rparr>"

section \<open>Basic facts\<close>

lemma startswith_iff: "startswith s sub \<longleftrightarrow> (\<exists>q. s = sub @ q)"
  by (induction s sub rule: startswith.induct) auto

lemma str_in_iff: "str_in sub s \<longleftrightarrow> (\<exists>p q. s = p @ sub @ q)"
proof (induction s)
  case Nil
  then show ?case by auto
next
  case (Cons x xs)
  show ?case
  proof
    assume "str_in sub (x # xs)"
    then consider "startswith (x # xs) sub" | "str_in sub xs" by auto
    then show "\<exists>p q. x # xs = p @ sub @ q"
    proof cases
      case 1
      then obtain q where "x # xs = sub @ q" by (auto simp: startswith_iff)
      then have "x # xs = [] @ sub @ q" by simp
      then show ?thesis by blast
    next
      case 2
      then obtain p q where "xs = p @ sub @ q" using Cons.IH by auto
      then have "x # xs = (x # p) @ sub @ q" by simp
      then show ?thesis by blast
    qed
  next
    assume "\<exists>p q. x # xs = p @ sub @ q"
    then obtain p q where pq: "x # xs = p @ sub @ q" by blast
    show "str_in sub (x # xs)"
    proof (cases p)
      case Nil
      then have "startswith (x # xs) sub" using pq by (auto simp: startswith_iff)
      then show ?thesis by simp
    next
      case (Cons a p')
      then have "xs = p' @ sub @ q" using pq by simp
      then have "str_in sub xs" using Cons.IH by blast
      then show ?thesis by simp
    qed
  qed
qed

lemma join_choices_ok:
  "chars \<noteq> [] \<Longrightarrow>
   join_choices chars rnd xs = Inr (map (\<lambda>k. chars ! (rnd k mod length chars)) xs)"
  by (induction xs) (auto simp: random_choice_def)

lemma wait_peering_done:
  "poll_done p (k + n) \<Longrightarrow> (\<forall>j < n. \<not> poll_done p (k + j)) \<Longrightarrow>
   wait_peering p k acc = Some (acc @ poll_trace p k n)"
proof (induction n arbitrary: k acc)
  case 0
  then show ?case by (subst wait_peering.simps) simp
next
  case (Suc n)
  have nd: "\<not> poll_done p k" using Suc.prems(2)[rule_format, of 0] by simp
  have d: "poll_done p (Suc k + n)" using Suc.prems(1) by simp
  have nd': "\<forall>j<n. \<not> poll_done p (Suc k + j)"
  proof (intro allI impI)
    fix j assume "j < n"
    then have "Suc j < Suc n" by simp
    then have "\<not> poll_done p (k + Suc j)" using Suc.prems(2) by blast
    then show "\<not> poll_done p (Suc k + j)" by simp
  qed
  show ?case
    apply (subst wait_peering.simps)
    using nd Suc.IH[OF d nd'] by simp
qed

lemma wait_peering_Some:
  assumes "wait_peering p k acc = Some tr"
  shows "\<exists>n. poll_done p (k + n)"
proof -
  have step: "\<exists>n. poll_done p (k + n)"
    if IH: "\<And>p k acc tr. f p k acc = Some tr \<Longrightarrow> \<exists>n. poll_done p (k + n)"
    and body: "(if \<not> poll_done p k
                then f p (k + 1) (acc @ [Sleep 2, Print (''Peering: '' @ poll_status p k)])
                else Some acc) = Some tr"
    for f :: "poller \<Rightarrow> nat \<Rightarrow> event list \<Rightarrow> event list option" and p k acc tr
  proof (cases "poll_done p k")
    case True
    then have "poll_done p (k + 0)" by simp
    then show ?thesis by blast
  next
    case False
    then have "f p (k + 1) (acc @ [Sleep 2, Print (''Peering: '' @ poll_status p k)]) = Some tr"
      using body by simp
    from IH[OF this] obtain n where "poll_done p (k + 1 + n)" by blast
    then have "poll_done p (k + Suc n)" by simp
    then show ?thesis by blast
  qed
  show ?thesis
    by (rule wait_peering.raw_induct[where P = "\<lambda>p k acc tr. \<exists>n. poll_done p (k + n)",
          OF step assms])
qed

lemma wait_peering_None_iff: "wait_peering p 0 [] = None \<longleftrightarrow> (\<forall>k. \<not> poll_done p k)"
proof
  assume n: "wait_peering p 0 [] = None"
  show "\<forall>k. \<not> poll_done p k"
  proof (rule ccontr)
    assume "\<not> (\<forall>k. \<not> poll_done p k)"
    then obtain k where k: "poll_done p k" by blast
    define m where "m = (LEAST k. poll_done p k)"
    have "poll_done p m" unfolding m_def using k by (rule LeastI)
    moreover have "\<forall>j<m. \<not> poll_done p j" unfolding m_def using not_less_Least by blast
    ultimately have "wait_peering p 0 [] = Some ([] @ poll_trace p 0 m)"
      using wait_peering_done[of p 0 m "[]"] by simp
    with n show False by simp
  qed
next
  assume a: "\<forall>k. \<not> poll_done p k"
  show "wait_peering p 0 [] = None"
  proof (cases "wait_peering p 0 []")
    case None then show ?thesis .
  next
    case (Some tr)
    from wait_peering_Some[OF this] a show ?thesis by simp
  qed
qed

section \<open>The polling loop of azure_peering\<close>

text \<open>
  Claim C8. The wait for the peering operation is a loop whose every iteration sleeps
  two seconds and prints the status; it has no exit but \<open>done()\<close>. It returns exactly
  when some poll reports done, after the iterations before the first such poll, and it
  never returns (the value \<open>None\<close>) when no poll ever reports done; then the \<open>try\<close>
  block, and with it the function, never returns either.
\<close>

theorem peering_wait_unbounded:
  "(wait_peering p 0 [] = None \<longleftrightarrow> (\<forall>k. \<not> poll_done p k)) \<and>
   (\<forall>n. poll_done p n \<and> (\<forall>j<n. \<not> poll_done p j) \<longrightarrow>
        wait_peering p 0 [] = Some (poll_trace p 0 n)) \<and>
   (\<forall>(env::sdk) sub1 rg1 vnet1 vnet2_obj.
        peering_create_or_update env sub1 rg1 vnet1 ''hubpeering''
          (hubpeering_params vnet2_obj) = Inr p \<longrightarrow>
        (try_peering env sub1 rg1 vnet1 vnet2_obj = None \<longleftrightarrow> (\<forall>k. \<not> poll_done p k)))"
proof (intro conjI allI impI)
  show "wait_peering p 0 [] = None \<longleftrightarrow> (\<forall>k. \<not> poll_done p k)"
    by (rule wait_peering_None_iff)
next
  fix n assume "poll_done p n \<and> (\<forall>j<n. \<not> poll_done p j)"
  then show "wait_peering p 0 [] = Some (poll_trace p 0 n)"
    using wait_peering_done[of p 0 n "[]"] by simp
next
  fix env :: sdk and sub1 rg1 vnet1 vnet2_obj
  assume "peering_create_or_update env sub1 rg1 vnet1 ''hubpeering''
            (hubpeering_params vnet2_obj) = Inr p"
  then show "try_peering env sub1 rg1 vnet1 vnet2_obj = None \<longleftrightarrow> (\<forall>k. \<not> poll_done p k)"
    using wait_peering_None_iff[of p]
    by (auto simp add: try_peering_def split: option.splits)
qed

theorem peering_wait_unbounded_witness:
  "poll_done slow_poller 2 \<and> \<not> poll_done slow_poller 0 \<and> \<not> poll_done slow_poller 1 \<and>
   wait_peering slow_poller 0 [] =
     Some [Sleep 2, Print ''Peering: InProgress'', Sleep 2, Print ''Peering: InProgress''] \<and>
   (\<forall>k. \<not> poll_done stuck_poller k) \<and>
   wait_peering stuck_poller 0 [] = None \<and>
   peering_create_or_update fresh_subscription ''s1'' ''rg1'' ''hub'' ''hubpeering''
     (hubpeering_params \<lparr>vnet_id = ''spoke'', address_prefixes = []\<rparr>) = Inr slow_poller \<and>
   try_peering fresh_subscription ''s1'' ''rg1'' ''hub''
     \<lparr>vnet_id = ''spoke'', address_prefixes = []\<rparr> \<noteq> None"
proof -
  have d: "poll_done slow_poller 2 \<and> (\<forall>j<2. \<not> poll_done slow_poller j)"
    by (simp add: slow_poller_def)
  have s: "\<forall>k. \<not> poll_done stuck_poller k" by (simp add: stuck_poller_def)
  have c: "peering_create_or_update fresh_subscription ''s1'' ''rg1'' ''hub'' ''hubpeering''
     (hubpeering_params \<lparr>vnet_id = ''spoke'', address_prefixes = []\<rparr>) = Inr slow_poller"
    by (simp add: fresh_subscription_def slow_poller_def)
  have 1: "wait_peering slow_poller 0 [] = Some (poll_trace slow_poller 0 2)"
    using peering_wait_unbounded[of slow_poller] d by blast
  have 2: "wait_peering stuck_poller 0 [] = None"
    using peering_wait_unbounded[of stuck_poller] s by blast
  have 3: "try_peering fresh_subscription ''s1'' ''rg1'' ''hub''
     \<lparr>vnet_id = ''spoke'', address_prefixes = []\<rparr> \<noteq> None"
    using peering_wait_unbounded[of slow_poller] c d by blast
  have t: "poll_trace slow_poller 0 2 =
     [Sleep 2, Print ''Peering: InProgress'', Sleep 2, Print ''Peering: InProgress'']"
    by (simp add: numeral_2_eq_2 slow_poller_def)
  have e: "\<not> poll_done slow_poller 0 \<and> \<not> poll_done slow_poller 1"
    by (simp add: slow_poller_def)
  show ?thesis using d e s c 1 2 3 t by simp
qed

section \<open>Facts about runs of azure_state_setup\<close>

lemma bind_prog_Inr [simp]: "bind_prog (t, Inr x) f = (t @ fst (f x), snd (f x))"
  by (simp add: bind_prog_def split: prod.splits)

lemma bind_prog_Inl [simp]: "bind_prog (t, Inl e) f = (t, Inl e)"
  by (simp add: bind_prog_def)

lemma fst_bind_prog:
  "fst (bind_prog m f) = fst m @ (case snd m of Inl e \<Rightarrow> [] | Inr x \<Rightarrow> fst (f x))"
  by (cases m) (auto simp: bind_prog_def split: sum.splits prod.splits)

lemma snd_bind_prog:
  "snd (bind_prog m f) = (case snd m of Inl e \<Rightarrow> Inl e | Inr x \<Rightarrow> snd (f x))"
  by (cases m) (auto simp: bind_prog_def split: sum.splits prod.splits)

lemma bind_prog_assoc:
  "bind_prog (bind_prog m f) g = bind_prog m (\<lambda>x. bind_prog (f x) g)"
  by (cases m) (auto simp: bind_prog_def split: sum.splits prod.splits)

lemma candidate_name_eq:
  "candidate_name v rnd = Inr (orgName v @ ''tfstate'' @ suffix_of rnd)"
  by (simp add: candidate_name_def random_generator_default_def random_generator_def
      join_choices_ok storage_prefix_of_def ascii_lowercase_def digits_def suffix_of_def)

lemma azure_state_setup_split:
  "azure_state_setup env v sub rnd =
     bind_prog (prelude env v sub) (\<lambda>_.
       storage_phase env sub (resource_group_of v) (location v) (vault_uri_of v)
         (orgName v @ ''tfstate'' @ suffix_of rnd))"
  by (simp add: azure_state_setup_def prelude_def lift_def candidate_name_eq bind_prog_assoc)

lemma count_items_eq: "count_items xs i = i + length xs"
  by (induction xs arbitrary: i) auto

lemma scan_vaults_snd: "snd (scan_vaults kv vs ex) = Inr (ex \<or> kv \<in> set vs)"
  by (induction vs arbitrary: ex) (auto simp: print_def ret_def)

lemma scan_vaults_fst: "ev \<in> set (fst (scan_vaults kv vs ex)) \<Longrightarrow> \<exists>s. ev = Print s"
  by (induction vs arbitrary: ex) (auto simp: print_def ret_def split: if_splits)

lemma scan_storage_snd:
  "snd (scan_storage_accounts accts (n, ex)) =
     Inr (if tfstate_accounts accts = [] then (n, ex) else (last (tfstate_accounts accts), True))"
  by (induction accts arbitrary: n ex) (auto simp: print_def ret_def tfstate_accounts_def)

lemma scan_storage_fst:
  "ev \<in> set (fst (scan_storage_accounts accts st)) \<Longrightarrow> \<exists>s. ev = Print s"
  by (induction accts st rule: scan_storage_accounts.induct)
     (auto simp: print_def ret_def split: if_splits)

lemma discover_keyvault_snd:
  "vaults_list env sub = Inr vs \<Longrightarrow>
   snd (discover_keyvault env sub kv) = Inr (kv \<in> set vs)"
  by (cases "vs = []")
     (simp_all add: discover_keyvault_def call_def ret_def count_items_eq scan_vaults_snd)

lemma discover_storage_snd:
  "storage_accounts_list env sub = Inr accts \<Longrightarrow>
   snd (discover_storage_account env sub cand) =
     Inr (if tfstate_accounts accts = [] then (cand, False)
          else (last (tfstate_accounts accts), True))"
  by (cases "accts = []")
     (simp_all add: discover_storage_account_def call_def ret_def count_items_eq scan_storage_snd
        tfstate_accounts_def)

lemma suffix_of_length: "length (suffix_of rnd) = 6"
  by (simp add: suffix_of_def)

lemma suffix_of_chars: "set (suffix_of rnd) \<subseteq> set (ascii_lowercase @ digits)"
proof -
  have len: "length (ascii_lowercase @ digits) = 36"
    by (simp add: ascii_lowercase_def digits_def)
  have "(ascii_lowercase @ digits) ! (rnd k mod 36) \<in> set (ascii_lowercase @ digits)" for k
    by (rule nth_mem) (simp add: ascii_lowercase_def digits_def)
  then show ?thesis unfolding suffix_of_def by auto
qed

lemma str_in_candidate: "str_in ''tfstate'' (org @ ''tfstate'' @ suffix)"
  unfolding str_in_iff by blast

lemma last_tfstate_accounts:
  "tfstate_accounts accts \<noteq> [] \<Longrightarrow> str_in ''tfstate'' (last (tfstate_accounts accts))"
proof -
  assume "tfstate_accounts accts \<noteq> []"
  then have "last (tfstate_accounts accts) \<in> set (tfstate_accounts accts)" by (rule last_in_set)
  then show ?thesis by (simp add: tfstate_accounts_def)
qed

text \<open>
  Claim C9. The candidate storage account name is \<open>orgName\<close>, then \<open>tfstate\<close>, then the
  six characters that \<open>random_generator()\<close> returns, each a lowercase letter or a digit.
  It contains \<open>tfstate\<close> whatever \<open>orgName\<close> is, so whenever a later listing holds an
  account of that name, discovery reports a match, whatever candidate that later run
  drew.
\<close>

theorem candidate_name_matched_by_discovery:
  "random_generator_default rnd = Inr (suffix_of rnd) \<and>
   length (suffix_of rnd) = 6 \<and>
   set (suffix_of rnd) \<subseteq> set (ascii_lowercase @ digits) \<and>
   candidate_name v rnd = Inr (orgName v @ ''tfstate'' @ suffix_of rnd) \<and>
   str_in ''tfstate'' (orgName v @ ''tfstate'' @ suffix_of rnd) \<and>
   (\<forall>(env::sdk) sub accts other.
      storage_accounts_list env sub = Inr accts \<and>
      orgName v @ ''tfstate'' @ suffix_of rnd \<in> set accts \<longrightarrow>
      (\<exists>name. str_in ''tfstate'' name \<and>
         snd (discover_storage_account env sub other) = Inr (name, True)))"
proof (intro conjI allI impI)
  show "random_generator_default rnd = Inr (suffix_of rnd)"
    by (simp add: random_generator_default_def random_generator_def join_choices_ok
        ascii_lowercase_def digits_def suffix_of_def)
  show "length (suffix_of rnd) = 6" by (rule suffix_of_length)
  show "set (suffix_of rnd) \<subseteq> set (ascii_lowercase @ digits)" by (rule suffix_of_chars)
  show "candidate_name v rnd = Inr (orgName v @ ''tfstate'' @ suffix_of rnd)"
    by (rule candidate_name_eq)
  show "str_in ''tfstate'' (orgName v @ ''tfstate'' @ suffix_of rnd)"
    by (rule str_in_candidate)
next
  fix env :: sdk and sub accts other
  assume a: "storage_accounts_list env sub = Inr accts \<and>
             orgName v @ ''tfstate'' @ suffix_of rnd \<in> set accts"
  then have "orgName v @ ''tfstate'' @ suffix_of rnd \<in> set (tfstate_accounts accts)"
    using str_in_candidate[of "orgName v" "suffix_of rnd"] by (simp add: tfstate_accounts_def)
  then have ne: "tfstate_accounts accts \<noteq> []" by auto
  have "snd (discover_storage_account env sub other) =
          Inr (last (tfstate_accounts accts), True)"
    using a ne by (simp add: discover_storage_snd)
  then show "\<exists>name. str_in ''tfstate'' name \<and>
               snd (discover_storage_account env sub other) = Inr (name, True)"
    using last_tfstate_accounts[OF ne] by blast
qed

lemma suffix_of_id: "suffix_of (\<lambda>k. k) = ''abcdef''"
  by (simp add: suffix_of_def upt_rec ascii_lowercase_def digits_def)

theorem candidate_name_matched_by_discovery_witness:
  "storage_accounts_list listed_subscription ''ops'' = Inr [''other'', ''acmetfstateabcdef''] \<and>
   candidate_name acme (\<lambda>k. k) = Inr ''acmetfstateabcdef'' \<and>
   ''acmetfstateabcdef'' \<in> set [''other'', ''acmetfstateabcdef''] \<and>
   (\<exists>name. str_in ''tfstate'' name \<and>
      snd (discover_storage_account listed_subscription ''ops'' ''acmetfstatezzzzzz'') =
        Inr (name, True))"
proof -
  have l: "storage_accounts_list listed_subscription ''ops'' =
             Inr [''other'', ''acmetfstateabcdef'']"
    by (simp add: listed_subscription_def fresh_subscription_def)
  have n: "orgName acme @ ''tfstate'' @ suffix_of (\<lambda>k. k) = ''acmetfstateabcdef''"
    by (simp add: acme_def suffix_of_id)
  show ?thesis
    using candidate_name_matched_by_discovery[of "\<lambda>k. k" acme] l n by auto
qed

lemma snd_bind_prog_Inr:
  "snd (bind_prog m f) = Inr y \<Longrightarrow> \<exists>x. snd m = Inr x \<and> snd (f x) = Inr y"
  by (cases m) (auto simp: bind_prog_def split: sum.splits prod.splits)

lemma in_fst_bind_prog:
  "ev \<in> set (fst (bind_prog m f)) \<longleftrightarrow>
     ev \<in> set (fst m) \<or> (\<exists>x. snd m = Inr x \<and> ev \<in> set (fst (f x)))"
  by (cases m) (auto simp: bind_prog_def split: sum.splits prod.splits)

lemma credentials_events:
  "ev \<in> set (fst (service_principal_credentials env)) \<Longrightarrow> \<exists>c s t. ev = SpLogin c s t"
  by (auto simp: service_principal_credentials_def getenv_def raise_def ret_def call_def
      split: option.splits)

lemma client_secret_events: "fst (client_secret_credential env) = []"
  by (auto simp: client_secret_credential_def getenv_def raise_def ret_def
      split: option.splits)

lemma ensure_resource_group_events:
  "ev \<in> set (fst (ensure_resource_group env sub rg loc)) \<Longrightarrow>
   ev = RgCheckExistence sub rg \<or> ev = RgCreateOrUpdate sub rg loc"
  by (auto simp: ensure_resource_group_def in_fst_bind_prog call_def ret_def split: if_splits)

lemma discover_keyvault_events:
  "ev \<in> set (fst (discover_keyvault env sub kv)) \<Longrightarrow> ev = VaultsList sub \<or> (\<exists>s. ev = Print s)"
  by (auto simp: discover_keyvault_def in_fst_bind_prog call_def ret_def
      dest: scan_vaults_fst split: if_splits)

lemma create_keyvault_events:
  "ev \<in> set (fst (create_keyvault env sub rg kv loc)) \<Longrightarrow>
   (\<exists>ps. ev = VaultsCreateOrUpdate sub rg kv ps) \<or> (\<exists>s. ev = Print s)"
  by (auto simp: create_keyvault_def getenv_def raise_def ret_def call_def print_def
      split: option.splits)

lemma ensure_keyvault_events:
  "ev \<in> set (fst (ensure_keyvault env sub rg kv loc)) \<Longrightarrow>
   ev = VaultsList sub \<or> (\<exists>ps. ev = VaultsCreateOrUpdate sub rg kv ps) \<or> (\<exists>s. ev = Print s)"
  by (auto simp: ensure_keyvault_def in_fst_bind_prog ret_def
      dest: discover_keyvault_events create_keyvault_events split: if_splits)

lemma prelude_events:
  "ev \<in> set (fst (prelude env v sub)) \<Longrightarrow>
   (\<exists>c s t. ev = SpLogin c s t) \<or> ev = ProvidersRegister sub ''Microsoft.KeyVault'' \<or>
   ev = RgCheckExistence sub (resource_group_of v) \<or>
   ev = RgCreateOrUpdate sub (resource_group_of v) (location v) \<or>
   ev = VaultsList sub \<or>
   (\<exists>ps. ev = VaultsCreateOrUpdate sub (resource_group_of v) (keyvault_name_of v) ps) \<or>
   (\<exists>s. ev = Print s)"
  unfolding prelude_def in_fst_bind_prog client_secret_events
  by (auto simp: call_def dest: credentials_events ensure_resource_group_events
      ensure_keyvault_events)

lemma prelude_no_storage_event: "ev \<in> set (fst (prelude env v sub)) \<Longrightarrow> \<not> storage_event ev"
  by (drule prelude_events) auto

lemma discover_storage_events:
  "ev \<in> set (fst (discover_storage_account env sub cand)) \<Longrightarrow>
   ev = StorageAccountsList sub \<or> (\<exists>s. ev = Print s)"
  by (auto simp: discover_storage_account_def in_fst_bind_prog call_def ret_def
      dest: scan_storage_fst split: if_splits)

lemma fetch_keys_eq:
  "fetch_keys env sub rg n =
     ([ListKeys sub rg n],
      case list_keys env sub rg n of Inl e \<Rightarrow> Inl e | Inr kvs \<Rightarrow> Inr (keys_dict kvs))"
  by (auto simp: fetch_keys_def call_def ret_def bind_prog_def split: sum.splits)

lemma store_keys_events:
  "ev \<in> set (fst (store_keys env uri keys n)) \<Longrightarrow> \<exists>name x. ev = SetSecret uri name x"
  by (auto simp: store_keys_def in_fst_bind_prog subscript_def raise_def ret_def call_def
      split: option.splits)

lemma build_storage_account_events:
  "ev \<in> set (fst (build_storage_account env sub rg loc n)) \<Longrightarrow>
   ev = CheckNameAvailability sub n \<or>
   ev = StorageAccountsCreate sub rg n \<lparr>sku = standard_ragrs, kind = storage, sa_location = loc\<rparr> \<or>
   ev = StorageCreateResult n \<or> ev = BlobContainersCreate sub rg n ''tfstate'' \<or>
   ev = ListKeys sub rg n \<or> (\<exists>s. ev = Print s)"
  by (auto simp: build_storage_account_def in_fst_bind_prog fetch_keys_eq ret_def call_def
      print_def split: if_splits)

lemma confirm_container_events:
  "ev \<in> set (fst (confirm_container env sub rg n)) \<Longrightarrow>
   ev = ListKeys sub rg n \<or> (\<exists>k. ev = ListContainers n k) \<or>
   ev = BlobContainersCreate sub rg n ''tfstate'' \<or> (\<exists>s. ev = Print s)"
  by (auto simp: confirm_container_def in_fst_bind_prog fetch_keys_eq subscript_def raise_def
      ret_def call_def print_def split: if_splits option.splits)

lemma bind_prog_completed:
  assumes "bind_prog m f = (tr, Inr y)"
  obtains t1 x t2 where "m = (t1, Inr x)" "f x = (t2, Inr y)" "tr = t1 @ t2"
  using assms by (cases m) (auto simp: bind_prog_def split: sum.splits prod.splits)

lemma secrets_written_append:
  "secrets_written (a @ b) = secrets_written a @ secrets_written b"
  by (simp add: secrets_written_def List.map_filter_def)

lemma secrets_written_none:
  "(\<And>ev. ev \<in> set t \<Longrightarrow> secret_of ev = None) \<Longrightarrow> secrets_written t = []"
  by (induction t) (auto simp: secrets_written_def List.map_filter_def)

lemma discover_storage_eq:
  "storage_accounts_list env sub = Inr accts \<Longrightarrow>
   discover_storage_account env sub cand =
     (fst (discover_storage_account env sub cand),
      Inr (resolved_name accts cand, tfstate_accounts accts \<noteq> []))"
  using discover_storage_snd[of env sub accts cand]
  by (cases "discover_storage_account env sub cand") (auto simp: resolved_name_def)

lemma discover_storage_completed:
  "snd (discover_storage_account env sub cand) = Inr x \<Longrightarrow>
   \<exists>accts. storage_accounts_list env sub = Inr accts"
  by (cases "storage_accounts_list env sub")
     (auto simp: discover_storage_account_def call_def)

lemma discover_storage_no_secret:
  "secrets_written (fst (discover_storage_account env sub cand)) = []"
  by (rule secrets_written_none) (auto dest: discover_storage_events)

lemma store_keys_completed:
  assumes "store_keys env uri keys n = (t, Inr x)"
  shows "\<exists>k1 k2. keys ''key1'' = Some k1 \<and> keys ''key2'' = Some k2 \<and> x = (k1, k2, n) \<and>
           t = [SetSecret uri ''tfstate1'' k1, SetSecret uri ''tfstate2'' k2]"
  using assms
  by (auto simp: store_keys_def subscript_def raise_def ret_def call_def bind_prog_def
      split: option.splits sum.splits)

lemma build_storage_account_completed:
  assumes "build_storage_account env sub rg loc n = (t, Inr b)"
  shows "(b = None \<longleftrightarrow> check_name_availability env sub n = Inr False) \<and>
         (\<forall>keys. b = Some keys \<longrightarrow>
            (\<exists>kvs. list_keys env sub rg n = Inr kvs \<and> keys = keys_dict kvs \<and>
                   ListKeys sub rg n \<in> set t))"
  using assms
  by (auto simp: build_storage_account_def fetch_keys_eq ret_def call_def print_def
      bind_prog_def split: sum.splits if_splits)

lemma build_storage_account_no_secret:
  "secrets_written (fst (build_storage_account env sub rg loc n)) = []"
  by (rule secrets_written_none) (auto dest: build_storage_account_events)

lemma confirm_container_completed:
  assumes "confirm_container env sub rg n = (t, Inr b)"
  shows "\<exists>kvs. list_keys env sub rg n = Inr kvs \<and> b = Some (keys_dict kvs) \<and>
               ListKeys sub rg n \<in> set t"
  using assms
  by (auto simp: confirm_container_def fetch_keys_eq subscript_def raise_def ret_def call_def
      print_def bind_prog_def split: sum.splits if_splits option.splits)

lemma confirm_container_no_secret:
  "secrets_written (fst (confirm_container env sub rg n)) = []"
  by (rule secrets_written_none) (auto dest: confirm_container_events)

lemma storage_phase_completed:
  assumes "storage_phase env sub rg loc uri cand = (tr, Inr r)"
  shows "\<exists>accts. storage_accounts_list env sub = Inr accts \<and>
           (r = None \<longleftrightarrow>
              tfstate_accounts accts = [] \<and> check_name_availability env sub cand = Inr False) \<and>
           (r \<noteq> None \<longrightarrow>
              (\<exists>kvs k1 k2.
                 list_keys env sub rg (resolved_name accts cand) = Inr kvs \<and>
                 keys_dict kvs ''key1'' = Some k1 \<and> keys_dict kvs ''key2'' = Some k2 \<and>
                 r = Some (k1, k2, resolved_name accts cand) \<and>
                 secrets_written tr = [(uri, ''tfstate1'', k1), (uri, ''tfstate2'', k2)]))"
proof -
  let ?F = "\<lambda>(storage_account_name, storage_account_exists).
     bind_prog
       (if \<not> storage_account_exists
        then build_storage_account env sub rg loc storage_account_name
        else confirm_container env sub rg storage_account_name) (\<lambda>branch.
     case branch of
       None \<Rightarrow> ret None
     | Some keys \<Rightarrow>
         bind_prog (store_keys env uri keys storage_account_name) (\<lambda>triple.
         ret (Some triple)))"
  have "bind_prog (discover_storage_account env sub cand) ?F = (tr, Inr r)"
    using assms by (simp add: storage_phase_def after_discovery_def)
  then obtain t1 x t2 where d: "discover_storage_account env sub cand = (t1, Inr x)"
    and f: "?F x = (t2, Inr r)" and tr: "tr = t1 @ t2"
    by (rule bind_prog_completed)
  from d obtain accts where l: "storage_accounts_list env sub = Inr accts"
    using discover_storage_completed[of env sub cand x] by auto
  let ?n = "resolved_name accts cand"
  have x: "x = (?n, tfstate_accounts accts \<noteq> [])" and t1: "secrets_written t1 = []"
    using d discover_storage_eq[OF l, of cand] discover_storage_no_secret[of env sub cand]
    by auto
  let ?branch = "if tfstate_accounts accts = []
                 then build_storage_account env sub rg loc ?n
                 else confirm_container env sub rg ?n"
  have "bind_prog ?branch (\<lambda>branch.
     case branch of
       None \<Rightarrow> ret None
     | Some keys \<Rightarrow>
         bind_prog (store_keys env uri keys ?n) (\<lambda>triple. ret (Some triple))) = (t2, Inr r)"
    using f x by simp
  then obtain t3 b t4 where br: "?branch = (t3, Inr b)"
    and k: "(case b of None \<Rightarrow> ret None
             | Some keys \<Rightarrow> bind_prog (store_keys env uri keys ?n)
                 (\<lambda>triple. ret (Some triple))) = (t4, Inr r)"
    and t2: "t2 = t3 @ t4"
    by (rule bind_prog_completed)
  have t3: "secrets_written t3 = []"
    using br build_storage_account_no_secret[of env sub rg loc ?n]
      confirm_container_no_secret[of env sub rg ?n]
    by (auto split: if_splits)
  have cand: "tfstate_accounts accts = [] \<Longrightarrow> ?n = cand" by (simp add: resolved_name_def)
  have bNone: "b = None \<longleftrightarrow>
      tfstate_accounts accts = [] \<and> check_name_availability env sub cand = Inr False"
    using br cand build_storage_account_completed[of env sub rg loc ?n t3 b]
      confirm_container_completed[of env sub rg ?n t3 b]
    by (auto split: if_splits)
  have bSome: "\<exists>kvs. list_keys env sub rg ?n = Inr kvs \<and> keys = keys_dict kvs"
    if "b = Some keys" for keys
    using that br build_storage_account_completed[of env sub rg loc ?n t3 b]
      confirm_container_completed[of env sub rg ?n t3 b]
    by (auto split: if_splits)
  show ?thesis
  proof (cases b)
    case None
    then have "r = None" "t4 = []" using k by (auto simp: ret_def)
    then show ?thesis using l bNone None by auto
  next
    case (Some keys)
    then have "bind_prog (store_keys env uri keys ?n) (\<lambda>triple. ret (Some triple)) = (t4, Inr r)"
      using k by simp
    then obtain t5 triple t6 where s: "store_keys env uri keys ?n = (t5, Inr triple)"
      and r: "ret (Some triple) = (t6, Inr r)" and t4: "t4 = t5 @ t6"
      by (rule bind_prog_completed)
    from store_keys_completed[OF s] obtain k1 k2 where
      k1: "keys ''key1'' = Some k1" and k2: "keys ''key2'' = Some k2"
      and triple: "triple = (k1, k2, ?n)"
      and t5: "t5 = [SetSecret uri ''tfstate1'' k1, SetSecret uri ''tfstate2'' k2]"
      by blast
    from bSome[OF Some] obtain kvs where
      kvs: "list_keys env sub rg ?n = Inr kvs" "keys = keys_dict kvs" by blast
    have r': "r = Some (k1, k2, ?n)" and t6: "t6 = []" using r triple by (auto simp: ret_def)
    have sw: "secrets_written tr = [(uri, ''tfstate1'', k1), (uri, ''tfstate2'', k2)]"
      using tr t2 t4 t1 t3 t5 t6
      by (simp add: secrets_written_append) (simp add: secrets_written_def List.map_filter_def)
    have "r \<noteq> None" using r' by simp
    moreover have "\<not> (tfstate_accounts accts = [] \<and>
        check_name_availability env sub cand = Inr False)"
      using bNone Some by simp
    ultimately show ?thesis using l kvs k1 k2 r' sw by auto
  qed
qed

lemma prelude_no_secret: "secrets_written (fst (prelude env v sub)) = []"
  by (rule secrets_written_none) (auto dest: prelude_events)

lemma run_completed:
  assumes "azure_state_setup env v sub rnd = (tr, Inr r)"
  obtains t1 t2 where "prelude env v sub = (t1, Inr ())"
    and "storage_phase env sub (resource_group_of v) (location v) (vault_uri_of v)
           (orgName v @ ''tfstate'' @ suffix_of rnd) = (t2, Inr r)"
    and "tr = t1 @ t2"
  using assms unfolding azure_state_setup_split by (rule bind_prog_completed) auto

text \<open>
  Claim C3, as amended. Every run that returns (no exception leaves the function)
  returns \<open>None\<close> exactly on the unavailable-name path: no listed account name contains
  \<open>tfstate\<close> and the availability check answered no. Every other run that returns has
  written exactly two secrets, \<open>tfstate1\<close> and \<open>tfstate2\<close>, to the vault of the derived
  name, holding \<open>key1\<close> and \<open>key2\<close> of the key listing of the resolved storage account,
  and returns these two keys with the resolved account name.
\<close>

theorem returning_run_stores_and_returns_keys:
  assumes "azure_state_setup env v sub rnd = (tr, Inr r)"
  shows "\<exists>accts. storage_accounts_list env sub = Inr accts \<and>
           (r = None \<longleftrightarrow>
              tfstate_accounts accts = [] \<and>
              check_name_availability env sub (orgName v @ ''tfstate'' @ suffix_of rnd) =
                Inr False) \<and>
           (r \<noteq> None \<longrightarrow>
              (\<exists>kvs k1 k2.
                 list_keys env sub (resource_group_of v)
                   (resolved_name accts (orgName v @ ''tfstate'' @ suffix_of rnd)) = Inr kvs \<and>
                 keys_dict kvs ''key1'' = Some k1 \<and> keys_dict kvs ''key2'' = Some k2 \<and>
                 r = Some (k1, k2,
                           resolved_name accts (orgName v @ ''tfstate'' @ suffix_of rnd)) \<and>
                 secrets_written tr =
                   [(vault_uri_of v, ''tfstate1'', k1), (vault_uri_of v, ''tfstate2'', k2)]))"
proof -
  from assms obtain t1 t2 where p: "prelude env v sub = (t1, Inr ())"
    and s: "storage_phase env sub (resource_group_of v) (location v) (vault_uri_of v)
              (orgName v @ ''tfstate'' @ suffix_of rnd) = (t2, Inr r)"
    and tr: "tr = t1 @ t2"
    by (rule run_completed)
  have "secrets_written t1 = []" using prelude_no_secret[of env v sub] p by simp
  then have "secrets_written tr = secrets_written t2"
    using tr by (simp add: secrets_written_append)
  then show ?thesis using storage_phase_completed[OF s] by simp
qed

lemmas run_defs =
  azure_state_setup_def candidate_name_def random_generator_default_def random_generator_def
  random_choice_def ascii_lowercase_def digits_def storage_prefix_of_def lift_def
  service_principal_credentials_def client_secret_credential_def getenv_def
  ensure_resource_group_def ensure_keyvault_def discover_keyvault_def create_keyvault_def
  storage_phase_def after_discovery_def discover_storage_account_def
  build_storage_account_def confirm_container_def fetch_keys_def store_keys_def
  subscript_def keys_dict_def call_def print_def ret_def raise_def resource_group_of_def
  keyvault_name_of_def vault_uri_of_def secrets_written_def List.map_filter_def upt_rec

lemma fresh_run_snd:
  "snd (azure_state_setup fresh_subscription acme ''ops'' (\<lambda>k. k)) =
     Inr (Some (''K1acmetfstateabcdef'', ''K2acmetfstateabcdef'', ''acmetfstateabcdef''))"
  by (simp add: run_defs fresh_subscription_def acme_def)

theorem returning_run_stores_and_returns_keys_witness:
  "snd (azure_state_setup fresh_subscription acme ''ops'' (\<lambda>k. k)) =
     Inr (Some (''K1acmetfstateabcdef'', ''K2acmetfstateabcdef'', ''acmetfstateabcdef'')) \<and>
   secrets_written (fst (azure_state_setup fresh_subscription acme ''ops'' (\<lambda>k. k))) =
     [(''https://acme-tfstate-kv.vault.azure.net/'', ''tfstate1'', ''K1acmetfstateabcdef''),
      (''https://acme-tfstate-kv.vault.azure.net/'', ''tfstate2'', ''K2acmetfstateabcdef'')]"
proof -
  let ?run = "azure_state_setup fresh_subscription acme ''ops'' (\<lambda>k. k)"
  let ?r = "Some (''K1acmetfstateabcdef'', ''K2acmetfstateabcdef'', ''acmetfstateabcdef'')"
  have h: "?run = (fst ?run, Inr ?r)"
    using fresh_run_snd by (simp add: prod_eq_iff)
  from returning_run_stores_and_returns_keys[OF h] obtain accts kvs k1 k2 where
    r: "?r = Some (k1, k2, resolved_name accts (orgName acme @ ''tfstate'' @ suffix_of (\<lambda>k. k)))"
    and sw: "secrets_written (fst ?run) =
      [(vault_uri_of acme, ''tfstate1'', k1), (vault_uri_of acme, ''tfstate2'', k2)]"
    by auto
  from r have "k1 = ''K1acmetfstateabcdef''" "k2 = ''K2acmetfstateabcdef''" by auto
  then show ?thesis
    using sw fresh_run_snd by (simp add: vault_uri_of_def keyvault_name_of_def acme_def)
qed

theorem raising_run_stores_no_keys:
  "check_name_availability keyless_subscription ''ops'' ''acmetfstateabcdef'' = Inr True \<and>
   snd (azure_state_setup keyless_subscription acme ''ops'' (\<lambda>k. k)) =
     Inl (CloudError ''AuthorizationFailed'') \<and>
   secrets_written (fst (azure_state_setup keyless_subscription acme ''ops'' (\<lambda>k. k))) = []"
  by (simp add: run_defs keyless_subscription_def fresh_subscription_def acme_def)

lemma discover_storage_obtain:
  assumes "storage_accounts_list env sub = Inr accts"
  obtains D where
    "discover_storage_account env sub cand =
       (D, Inr (resolved_name accts cand, tfstate_accounts accts \<noteq> []))"
    and "\<And>ev. ev \<in> set D \<Longrightarrow> ev = StorageAccountsList sub \<or> (\<exists>s. ev = Print s)"
    and "StorageAccountsList sub \<in> set D"
proof -
  let ?D = "fst (discover_storage_account env sub cand)"
  have 1: "discover_storage_account env sub cand =
       (?D, Inr (resolved_name accts cand, tfstate_accounts accts \<noteq> []))"
    by (rule discover_storage_eq[OF assms])
  have 2: "ev = StorageAccountsList sub \<or> (\<exists>s. ev = Print s)" if "ev \<in> set ?D" for ev
    using that by (rule discover_storage_events)
  have 3: "StorageAccountsList sub \<in> set ?D"
    by (simp add: discover_storage_account_def in_fst_bind_prog call_def)
  show ?thesis using that[OF 1 2 3] by blast
qed

lemma after_discovery_events:
  assumes "ev \<in> set (fst (after_discovery env sub rg loc uri n ex))"
  shows "(\<exists>s. ev = Print s) \<or> (\<exists>name x. ev = SetSecret uri name x) \<or>
     (\<not> ex \<and> (ev = CheckNameAvailability sub n \<or>
        ev = StorageAccountsCreate sub rg n
               \<lparr>sku = standard_ragrs, kind = storage, sa_location = loc\<rparr> \<or>
        ev = StorageCreateResult n \<or> ev = BlobContainersCreate sub rg n ''tfstate'' \<or>
        ev = ListKeys sub rg n)) \<or>
     (ex \<and> (ev = ListKeys sub rg n \<or> (\<exists>k. ev = ListContainers n k) \<or>
        ev = BlobContainersCreate sub rg n ''tfstate''))"
  using assms unfolding after_discovery_def in_fst_bind_prog
  by (auto simp: ret_def in_fst_bind_prog split: if_splits option.splits
      dest: build_storage_account_events confirm_container_events store_keys_events)

lemma storage_phase_events:
  assumes l: "storage_accounts_list env sub = Inr accts"
    and ev: "ev \<in> set (fst (storage_phase env sub rg loc uri cand))"
  shows "ev = StorageAccountsList sub \<or> (\<exists>s. ev = Print s) \<or>
     (\<exists>name x. ev = SetSecret uri name x) \<or>
     (tfstate_accounts accts = [] \<and> (ev = CheckNameAvailability sub cand \<or>
        ev = StorageAccountsCreate sub rg cand
               \<lparr>sku = standard_ragrs, kind = storage, sa_location = loc\<rparr> \<or>
        ev = StorageCreateResult cand \<or> ev = BlobContainersCreate sub rg cand ''tfstate'' \<or>
        ev = ListKeys sub rg cand)) \<or>
     (tfstate_accounts accts \<noteq> [] \<and>
       (ev = ListKeys sub rg (last (tfstate_accounts accts)) \<or>
        (\<exists>k. ev = ListContainers (last (tfstate_accounts accts)) k) \<or>
        ev = BlobContainersCreate sub rg (last (tfstate_accounts accts)) ''tfstate''))"
proof -
  from l obtain D where d: "discover_storage_account env sub cand =
       (D, Inr (resolved_name accts cand, tfstate_accounts accts \<noteq> []))"
    and D: "\<And>ev. ev \<in> set D \<Longrightarrow> ev = StorageAccountsList sub \<or> (\<exists>s. ev = Print s)"
    and "StorageAccountsList sub \<in> set D"
    by (rule discover_storage_obtain[where cand = cand]) blast
  from ev d consider "ev \<in> set D"
    | "ev \<in> set (fst (after_discovery env sub rg loc uri (resolved_name accts cand)
                        (tfstate_accounts accts \<noteq> [])))"
    by (auto simp: storage_phase_def)
  then show ?thesis
  proof cases
    case 1
    then show ?thesis using D by blast
  next
    case 2
    from after_discovery_events[OF 2] show ?thesis
      by (auto simp: resolved_name_def)
  qed
qed

lemma storage_phase_raised_listing:
  "storage_accounts_list env sub = Inl e \<Longrightarrow>
   storage_phase env sub rg loc uri cand = ([StorageAccountsList sub], Inl e)"
  by (simp add: storage_phase_def discover_storage_account_def call_def)

lemma run_trace:
  "fst (azure_state_setup env v sub rnd) =
     fst (prelude env v sub) @
     (case snd (prelude env v sub) of
        Inl e \<Rightarrow> []
      | Inr u \<Rightarrow> fst (storage_phase env sub (resource_group_of v) (location v)
                        (vault_uri_of v) (orgName v @ ''tfstate'' @ suffix_of rnd)))"
  by (subst azure_state_setup_split) (rule fst_bind_prog)

lemma run_outcome:
  "snd (azure_state_setup env v sub rnd) =
     (case snd (prelude env v sub) of
        Inl e \<Rightarrow> Inl e
      | Inr u \<Rightarrow> snd (storage_phase env sub (resource_group_of v) (location v)
                        (vault_uri_of v) (orgName v @ ''tfstate'' @ suffix_of rnd)))"
  by (subst azure_state_setup_split) (rule snd_bind_prog)

lemma acme_candidate: "orgName acme @ ''tfstate'' @ suffix_of (\<lambda>k. k) = ''acmetfstateabcdef''"
  by (simp add: acme_def suffix_of_id)

lemma no_match_iff: "tfstate_accounts accts = [] \<longleftrightarrow> (\<forall>a\<in>set accts. \<not> str_in ''tfstate'' a)"
  by (simp add: tfstate_accounts_def filter_empty_conv)

lemma storage_event_in_run:
  assumes "ev \<in> set (fst (azure_state_setup env v sub rnd))" and "storage_event ev"
  shows "\<exists>t. prelude env v sub = (t, Inr ()) \<and>
           ev \<in> set (fst (storage_phase env sub (resource_group_of v) (location v)
                        (vault_uri_of v) (orgName v @ ''tfstate'' @ suffix_of rnd)))"
proof -
  have "ev \<notin> set (fst (prelude env v sub))"
    using assms(2) prelude_no_storage_event by blast
  then show ?thesis
    using assms(1) unfolding run_trace
    by (cases "prelude env v sub") (auto split: sum.splits)
qed

lemma run_after_prelude:
  assumes "prelude env v sub = (t, Inr ())"
  shows "azure_state_setup env v sub rnd =
     (t @ fst (storage_phase env sub (resource_group_of v) (location v)
                 (vault_uri_of v) (orgName v @ ''tfstate'' @ suffix_of rnd)),
      snd (storage_phase env sub (resource_group_of v) (location v)
             (vault_uri_of v) (orgName v @ ''tfstate'' @ suffix_of rnd)))"
  by (subst azure_state_setup_split) (simp add: assms)

text \<open>
  Claim C10. When the listing holds accounts whose names contain \<open>tfstate\<close>, discovery
  resolves \<open>storage_account_name\<close> to the last of them in listing order. Every key
  listing the run requests is that account's, and a run that returns has stored that
  account's \<open>key1\<close> and \<open>key2\<close> as the two secrets and returns them with its name.
\<close>

theorem last_matching_account_resolved:
  assumes run: "azure_state_setup env v sub rnd = (tr, out)"
    and l: "storage_accounts_list env sub = Inr accts"
    and m: "tfstate_accounts accts \<noteq> []"
  shows "snd (discover_storage_account env sub (orgName v @ ''tfstate'' @ suffix_of rnd)) =
           Inr (last (tfstate_accounts accts), True) \<and>
         (\<forall>s g n. ListKeys s g n \<in> set tr \<longrightarrow> n = last (tfstate_accounts accts)) \<and>
         (\<forall>r. out = Inr r \<longrightarrow>
            (\<exists>kvs k1 k2.
               list_keys env sub (resource_group_of v) (last (tfstate_accounts accts)) =
                 Inr kvs \<and>
               keys_dict kvs ''key1'' = Some k1 \<and> keys_dict kvs ''key2'' = Some k2 \<and>
               r = Some (k1, k2, last (tfstate_accounts accts)) \<and>
               secrets_written tr =
                 [(vault_uri_of v, ''tfstate1'', k1), (vault_uri_of v, ''tfstate2'', k2)]))"
proof (intro conjI allI impI)
  show "snd (discover_storage_account env sub (orgName v @ ''tfstate'' @ suffix_of rnd)) =
           Inr (last (tfstate_accounts accts), True)"
    using l m by (simp add: discover_storage_snd)
next
  fix s g n assume "ListKeys s g n \<in> set tr"
  then have "ListKeys s g n \<in> set (fst (azure_state_setup env v sub rnd))"
    using run by simp
  then have "ListKeys s g n \<in> set (fst (storage_phase env sub (resource_group_of v)
      (location v) (vault_uri_of v) (orgName v @ ''tfstate'' @ suffix_of rnd)))"
    using storage_event_in_run[of "ListKeys s g n" env v sub rnd] by auto
  from storage_phase_events[OF l this] m show "n = last (tfstate_accounts accts)"
    by auto
next
  fix r assume "out = Inr r"
  then have c: "azure_state_setup env v sub rnd = (tr, Inr r)" using run by simp
  have res: "resolved_name accts (orgName v @ ''tfstate'' @ suffix_of rnd) =
      last (tfstate_accounts accts)"
    using m by (simp add: resolved_name_def)
  from c obtain t1 t2 where p: "prelude env v sub = (t1, Inr ())"
    and s: "storage_phase env sub (resource_group_of v) (location v) (vault_uri_of v)
              (orgName v @ ''tfstate'' @ suffix_of rnd) = (t2, Inr r)"
    and tr: "tr = t1 @ t2"
    by (rule run_completed)
  have "secrets_written t1 = []" using prelude_no_secret[of env v sub] p by simp
  then have sw: "secrets_written tr = secrets_written t2"
    using tr by (simp add: secrets_written_append)
  from storage_phase_completed[OF s] l m res sw
  show "\<exists>kvs k1 k2.
               list_keys env sub (resource_group_of v) (last (tfstate_accounts accts)) =
                 Inr kvs \<and>
               keys_dict kvs ''key1'' = Some k1 \<and> keys_dict kvs ''key2'' = Some k2 \<and>
               r = Some (k1, k2, last (tfstate_accounts accts)) \<and>
               secrets_written tr =
                 [(vault_uri_of v, ''tfstate1'', k1), (vault_uri_of v, ''tfstate2'', k2)]"
    by auto
qed

lemma crowded_run_snd:
  "snd (azure_state_setup crowded_subscription acme ''ops'' (\<lambda>k. k)) =
     Inr (Some (''K1oldtfstatebackup'', ''K2oldtfstatebackup'', ''oldtfstatebackup''))"
  by (simp add: run_defs crowded_subscription_def settled_subscription_def
      fresh_subscription_def acme_def)

theorem last_matching_account_resolved_witness:
  "storage_accounts_list crowded_subscription ''ops'' =
     Inr [''acmetfstateabcdef'', ''oldtfstatebackup''] \<and>
   tfstate_accounts [''acmetfstateabcdef'', ''oldtfstatebackup''] =
     [''acmetfstateabcdef'', ''oldtfstatebackup''] \<and>
   snd (discover_storage_account crowded_subscription ''ops'' ''acmetfstateabcdef'') =
     Inr (''oldtfstatebackup'', True) \<and>
   snd (azure_state_setup crowded_subscription acme ''ops'' (\<lambda>k. k)) =
     Inr (Some (''K1oldtfstatebackup'', ''K2oldtfstatebackup'', ''oldtfstatebackup''))"
proof -
  let ?run = "azure_state_setup crowded_subscription acme ''ops'' (\<lambda>k. k)"
  have l: "storage_accounts_list crowded_subscription ''ops'' =
     Inr [''acmetfstateabcdef'', ''oldtfstatebackup'']"
    by (simp add: crowded_subscription_def settled_subscription_def fresh_subscription_def)
  have t: "tfstate_accounts [''acmetfstateabcdef'', ''oldtfstatebackup''] =
     [''acmetfstateabcdef'', ''oldtfstatebackup'']"
    by (simp add: tfstate_accounts_def)
  have m: "tfstate_accounts [''acmetfstateabcdef'', ''oldtfstatebackup''] \<noteq> []"
    using t by simp
  have h: "?run = (fst ?run, snd ?run)" by simp
  from last_matching_account_resolved[OF h l m]
  show ?thesis using l t crowded_run_snd by (simp add: acme_def suffix_of_id)
qed

lemma prelude_no_storage_write: "filter storage_write (fst (prelude env v sub)) = []"
  by (auto simp: filter_empty_conv dest: prelude_events)

lemma after_discovery_unavailable:
  "check_name_availability env sub n = Inr False \<Longrightarrow>
   after_discovery env sub rg loc uri n False =
     ([Print (''Checking if storage account name '' @ n @ '' is available''),
       CheckNameAvailability sub n,
       Print (''The storage account '' @ n @ '' is not available.'')], Inr None)"
  by (simp add: after_discovery_def build_storage_account_def call_def print_def ret_def)

text \<open>
  Claim C2. In a run in which no listed storage account name contains \<open>tfstate\<close> and
  the availability check of the candidate name is made and answers unavailable, the
  function returns \<open>None\<close> and raises nothing; the check is followed by one line of
  console output only, and the whole run holds no storage account creation, no container
  creation and no secret write.
\<close>

theorem unavailable_name_returns_none:
  assumes run: "azure_state_setup env v sub rnd = (tr, out)"
    and l: "storage_accounts_list env sub = Inr accts"
    and nomatch: "\<forall>a\<in>set accts. \<not> str_in ''tfstate'' a"
    and checked: "CheckNameAvailability sub (orgName v @ ''tfstate'' @ suffix_of rnd) \<in> set tr"
    and unavailable:
      "check_name_availability env sub (orgName v @ ''tfstate'' @ suffix_of rnd) = Inr False"
  shows "out = Inr None \<and>
         (\<exists>before.
            tr = before @
              [CheckNameAvailability sub (orgName v @ ''tfstate'' @ suffix_of rnd),
               Print (''The storage account '' @ (orgName v @ ''tfstate'' @ suffix_of rnd) @
                      '' is not available.'')] \<and>
            CheckNameAvailability sub (orgName v @ ''tfstate'' @ suffix_of rnd)
              \<notin> set before) \<and>
         filter storage_write tr = []"
proof -
  let ?cand = "orgName v @ ''tfstate'' @ suffix_of rnd"
  let ?sp = "storage_phase env sub (resource_group_of v) (location v) (vault_uri_of v) ?cand"
  have "CheckNameAvailability sub ?cand \<in> set (fst (azure_state_setup env v sub rnd))"
    using run checked by simp
  then obtain t where p: "prelude env v sub = (t, Inr ())"
    using storage_event_in_run[of "CheckNameAvailability sub ?cand" env v sub rnd] by auto
  have r: "azure_state_setup env v sub rnd = (t @ fst ?sp, snd ?sp)"
    by (rule run_after_prelude[OF p])
  have ms: "tfstate_accounts accts = []" using nomatch by (simp add: no_match_iff)
  from l obtain D where d: "discover_storage_account env sub ?cand =
       (D, Inr (resolved_name accts ?cand, tfstate_accounts accts \<noteq> []))"
    and D: "\<And>ev. ev \<in> set D \<Longrightarrow> ev = StorageAccountsList sub \<or> (\<exists>s. ev = Print s)"
    and "StorageAccountsList sub \<in> set D"
    by (rule discover_storage_obtain[where cand = ?cand]) blast
  have sp: "?sp = (D @ [Print (''Checking if storage account name '' @ ?cand @ '' is available''),
       CheckNameAvailability sub ?cand,
       Print (''The storage account '' @ ?cand @ '' is not available.'')], Inr None)"
    using d ms after_discovery_unavailable[OF unavailable]
    by (simp add: storage_phase_def resolved_name_def)
  let ?before = "t @ D @ [Print (''Checking if storage account name '' @ ?cand @
    '' is available'')]"
  have tr: "tr = ?before @ [CheckNameAvailability sub ?cand,
       Print (''The storage account '' @ ?cand @ '' is not available.'')]"
    and out: "out = Inr None"
    using run r sp by simp_all
  have t: "ev \<in> set t \<Longrightarrow> \<not> storage_event ev" for ev
    using prelude_no_storage_event[of ev env v sub] p by simp
  have "CheckNameAvailability sub ?cand \<notin> set t"
    using t[of "CheckNameAvailability sub ?cand"] by auto
  moreover have "CheckNameAvailability sub ?cand \<notin> set D"
    using D[of "CheckNameAvailability sub ?cand"] by auto
  ultimately have nb: "CheckNameAvailability sub ?cand \<notin> set ?before"
    by simp
  have "filter storage_write t = []" using prelude_no_storage_write[of env v sub] p by simp
  moreover have "\<not> storage_write ev" if "ev \<in> set D" for ev
    using D[OF that] by auto
  then have "filter storage_write D = []" by (simp add: filter_empty_conv)
  ultimately have fw: "filter storage_write tr = []" using tr by simp
  show ?thesis using out tr nb fw by blast
qed

lemma taken_name_run:
  "CheckNameAvailability ''ops'' ''acmetfstateabcdef''
     \<in> set (fst (azure_state_setup taken_name_subscription acme ''ops'' (\<lambda>k. k)))"
  by (simp add: run_defs taken_name_subscription_def fresh_subscription_def acme_def)

theorem unavailable_name_returns_none_witness:
  "storage_accounts_list taken_name_subscription ''ops'' = Inr [] \<and>
   check_name_availability taken_name_subscription ''ops'' ''acmetfstateabcdef'' = Inr False \<and>
   CheckNameAvailability ''ops'' ''acmetfstateabcdef''
     \<in> set (fst (azure_state_setup taken_name_subscription acme ''ops'' (\<lambda>k. k))) \<and>
   snd (azure_state_setup taken_name_subscription acme ''ops'' (\<lambda>k. k)) = Inr None \<and>
   filter storage_write (fst (azure_state_setup taken_name_subscription acme ''ops'' (\<lambda>k. k)))
     = []"
proof -
  let ?run = "azure_state_setup taken_name_subscription acme ''ops'' (\<lambda>k. k)"
  have h: "?run = (fst ?run, snd ?run)" by simp
  have l: "storage_accounts_list taken_name_subscription ''ops'' = Inr []"
    by (simp add: taken_name_subscription_def fresh_subscription_def)
  have n: "\<forall>a\<in>set ([]::string list). \<not> str_in ''tfstate'' a" by simp
  have c: "CheckNameAvailability ''ops'' (orgName acme @ ''tfstate'' @ suffix_of (\<lambda>k. k))
     \<in> set (fst ?run)"
    using taken_name_run by (simp add: acme_def suffix_of_id)
  have u: "check_name_availability taken_name_subscription ''ops''
      (orgName acme @ ''tfstate'' @ suffix_of (\<lambda>k. k)) = Inr False"
    by (simp add: taken_name_subscription_def fresh_subscription_def)
  from unavailable_name_returns_none[OF h l n c u]
  show ?thesis using l taken_name_run u by (simp add: acme_def suffix_of_id)
qed

lemma after_discovery_checks:
  "CheckNameAvailability sub n \<in> set (fst (after_discovery env sub rg loc uri n False))"
  by (simp add: after_discovery_def build_storage_account_def in_fst_bind_prog call_def
      print_def)

lemma after_discovery_created:
  assumes "check_name_availability env sub n = Inr True"
  shows "\<exists>before rest. fst (after_discovery env sub rg loc uri n False) =
     before @
     [StorageAccountsCreate sub rg n
        \<lparr>sku = standard_ragrs, kind = storage, sa_location = loc\<rparr>] @ rest \<and>
     (storage_accounts_create env sub rg n
        \<lparr>sku = standard_ragrs, kind = storage, sa_location = loc\<rparr> = Inr () \<and>
      storage_create_result env n = Inr () \<longrightarrow>
      (\<exists>rest'. rest = [StorageCreateResult n, BlobContainersCreate sub rg n ''tfstate''] @
                 rest'))"
proof -
  let ?P = "\<lparr>sku = standard_ragrs, kind = storage, sa_location = loc\<rparr>"
  let ?before = "[Print (''Checking if storage account name '' @ n @ '' is available''),
       CheckNameAvailability sub n,
       Print (''The storage account name '' @ n @ '' is available, building account.'')]"
  obtain rest where r: "fst (after_discovery env sub rg loc uri n False) =
     ?before @ [StorageAccountsCreate sub rg n ?P] @ rest"
    and r': "storage_accounts_create env sub rg n ?P = Inr () \<and>
      storage_create_result env n = Inr () \<longrightarrow>
      (\<exists>rest'. rest = [StorageCreateResult n, BlobContainersCreate sub rg n ''tfstate''] @
                 rest')"
    using assms
    by (simp add: after_discovery_def build_storage_account_def fst_bind_prog snd_bind_prog
        call_def print_def)
  then show ?thesis by blast
qed

lemma after_discovery_create_needs_available:
  assumes "StorageAccountsCreate s g m ps \<in> set (fst (after_discovery env sub rg loc uri n False))"
  shows "check_name_availability env sub n = Inr True"
proof (cases "check_name_availability env sub n")
  case (Inl e)
  then show ?thesis using assms
    by (simp add: after_discovery_def build_storage_account_def call_def print_def)
next
  case (Inr b)
  show ?thesis
  proof (cases b)
    case True
    then show ?thesis using Inr by simp
  next
    case False
    then show ?thesis using assms Inr after_discovery_unavailable[of env sub n rg loc uri]
      by simp
  qed
qed

text \<open>
  Claim C7. A storage account creation call occurs in a run only on the subscription,
  resource group and candidate name of that run, with the SKU \<open>standard_ragrs\<close>
  (standard, read-access geo-redundant), the kind \<open>storage\<close> and the location of the
  argument, and only when no listed name contains \<open>tfstate\<close> and the candidate name was
  reported available. When that creation succeeds, the next calls are the wait for its
  result and the creation of the blob container \<open>tfstate\<close> in the new account.
\<close>

theorem created_account_sku_kind_container:
  assumes run: "azure_state_setup env v sub rnd = (tr, out)"
    and created: "StorageAccountsCreate s g n ps \<in> set tr"
  shows "s = sub \<and> g = resource_group_of v \<and> n = orgName v @ ''tfstate'' @ suffix_of rnd \<and>
         ps = \<lparr>sku = standard_ragrs, kind = storage, sa_location = location v\<rparr> \<and>
         (\<exists>accts. storage_accounts_list env sub = Inr accts \<and>
                  (\<forall>a\<in>set accts. \<not> str_in ''tfstate'' a)) \<and>
         check_name_availability env sub n = Inr True \<and>
         (storage_accounts_create env sub g n ps = Inr () \<and>
          storage_create_result env n = Inr () \<longrightarrow>
          (\<exists>before rest.
             tr = before @
               [StorageAccountsCreate sub g n ps, StorageCreateResult n,
                BlobContainersCreate sub g n ''tfstate''] @ rest))"
proof -
  let ?cand = "orgName v @ ''tfstate'' @ suffix_of rnd"
  let ?rg = "resource_group_of v"
  let ?P = "\<lparr>sku = standard_ragrs, kind = storage, sa_location = location v\<rparr>"
  let ?sp = "storage_phase env sub ?rg (location v) (vault_uri_of v) ?cand"
  let ?ev = "StorageAccountsCreate s g n ps"
  have "?ev \<in> set (fst (azure_state_setup env v sub rnd))" using run created by simp
  then obtain t where p: "prelude env v sub = (t, Inr ())" and sp: "?ev \<in> set (fst ?sp)"
    using storage_event_in_run[of ?ev env v sub rnd] by auto
  have r: "azure_state_setup env v sub rnd = (t @ fst ?sp, snd ?sp)"
    by (rule run_after_prelude[OF p])
  obtain accts where l: "storage_accounts_list env sub = Inr accts"
    using sp storage_phase_raised_listing[of env sub _ ?rg "location v" "vault_uri_of v" ?cand]
    by (cases "storage_accounts_list env sub") auto
  from storage_phase_events[OF l sp]
  have ms: "tfstate_accounts accts = []" and ev: "?ev = StorageAccountsCreate sub ?rg ?cand ?P"
    by auto
  from l obtain D where d: "discover_storage_account env sub ?cand =
       (D, Inr (resolved_name accts ?cand, tfstate_accounts accts \<noteq> []))"
    and D: "\<And>ev. ev \<in> set D \<Longrightarrow> ev = StorageAccountsList sub \<or> (\<exists>s. ev = Print s)"
    and "StorageAccountsList sub \<in> set D"
    by (rule discover_storage_obtain[where cand = ?cand]) blast
  let ?ad = "after_discovery env sub ?rg (location v) (vault_uri_of v) ?cand False"
  have spe: "fst ?sp = D @ fst ?ad"
    using d ms by (simp add: storage_phase_def resolved_name_def)
  have "?ev \<notin> set D" using D[of ?ev] by auto
  then have "?ev \<in> set (fst ?ad)" using sp spe by simp
  then have av: "check_name_availability env sub ?cand = Inr True"
    by (rule after_discovery_create_needs_available)
  from after_discovery_created[OF av, of ?rg "location v" "vault_uri_of v"]
  obtain before rest where ad: "fst ?ad = before @ [StorageAccountsCreate sub ?rg ?cand ?P] @ rest"
    and rest: "storage_accounts_create env sub ?rg ?cand ?P = Inr () \<and>
      storage_create_result env ?cand = Inr () \<longrightarrow>
      (\<exists>rest'. rest = [StorageCreateResult ?cand,
                         BlobContainersCreate sub ?rg ?cand ''tfstate''] @ rest')"
    by blast
  have tr: "tr = (t @ D @ before) @ [StorageAccountsCreate sub ?rg ?cand ?P] @ rest"
    using run r spe ad by simp
  have seq: "\<exists>before rest'.
             tr = before @
               [StorageAccountsCreate sub ?rg ?cand ?P, StorageCreateResult ?cand,
                BlobContainersCreate sub ?rg ?cand ''tfstate''] @ rest'"
    if "storage_accounts_create env sub ?rg ?cand ?P = Inr () \<and>
        storage_create_result env ?cand = Inr ()"
  proof -
    from rest that obtain rest' where "rest = [StorageCreateResult ?cand,
                         BlobContainersCreate sub ?rg ?cand ''tfstate''] @ rest'"
      by blast
    then have "tr = (t @ D @ before) @
               [StorageAccountsCreate sub ?rg ?cand ?P, StorageCreateResult ?cand,
                BlobContainersCreate sub ?rg ?cand ''tfstate''] @ rest'"
      using tr by simp
    then show ?thesis by blast
  qed
  have nm: "\<forall>a\<in>set accts. \<not> str_in ''tfstate'' a" using ms by (simp add: no_match_iff)
  from ev have e: "s = sub" "g = ?rg" "n = ?cand" "ps = ?P" by simp_all
  show ?thesis
    unfolding e using l nm av seq by blast
qed

lemma fresh_run_creates:
  "StorageAccountsCreate ''ops'' ''acme-tfstate-rg'' ''acmetfstateabcdef''
     \<lparr>sku = standard_ragrs, kind = storage, sa_location = ''westus''\<rparr>
     \<in> set (fst (azure_state_setup fresh_subscription acme ''ops'' (\<lambda>k. k)))"
  by (simp add: run_defs fresh_subscription_def acme_def)

theorem created_account_sku_kind_container_witness:
  "StorageAccountsCreate ''ops'' ''acme-tfstate-rg'' ''acmetfstateabcdef''
     \<lparr>sku = standard_ragrs, kind = storage, sa_location = ''westus''\<rparr>
     \<in> set (fst (azure_state_setup fresh_subscription acme ''ops'' (\<lambda>k. k))) \<and>
   storage_accounts_create fresh_subscription ''ops'' ''acme-tfstate-rg'' ''acmetfstateabcdef''
     \<lparr>sku = standard_ragrs, kind = storage, sa_location = ''westus''\<rparr> = Inr () \<and>
   storage_create_result fresh_subscription ''acmetfstateabcdef'' = Inr () \<and>
   check_name_availability fresh_subscription ''ops'' ''acmetfstateabcdef'' = Inr True \<and>
   (\<exists>before rest.
      fst (azure_state_setup fresh_subscription acme ''ops'' (\<lambda>k. k)) =
        before @
        [StorageAccountsCreate ''ops'' ''acme-tfstate-rg'' ''acmetfstateabcdef''
           \<lparr>sku = standard_ragrs, kind = storage, sa_location = ''westus''\<rparr>,
         StorageCreateResult ''acmetfstateabcdef'',
         BlobContainersCreate ''ops'' ''acme-tfstate-rg'' ''acmetfstateabcdef'' ''tfstate''] @
        rest)"
proof -
  let ?run = "azure_state_setup fresh_subscription acme ''ops'' (\<lambda>k. k)"
  have h: "?run = (fst ?run, snd ?run)" by simp
  have c: "storage_accounts_create fresh_subscription ''ops'' ''acme-tfstate-rg''
     ''acmetfstateabcdef''
     \<lparr>sku = standard_ragrs, kind = storage, sa_location = ''westus''\<rparr> = Inr ()"
    and w: "storage_create_result fresh_subscription ''acmetfstateabcdef'' = Inr ()"
    by (simp_all add: fresh_subscription_def)
  from created_account_sku_kind_container[OF h fresh_run_creates]
  show ?thesis using fresh_run_creates c w by blast
qed

lemma create_keyvault_completed:
  "create_keyvault env sub rg kv loc = (t, Inr u) \<Longrightarrow>
   \<exists>ps. VaultsCreateOrUpdate sub rg kv ps \<in> set t"
  by (auto simp: create_keyvault_def getenv_def raise_def ret_def call_def print_def
      split: option.splits)

lemma ensure_keyvault_creation:
  assumes vl: "vaults_list env sub = Inr vs"
    and c: "ensure_keyvault env sub rg kv loc = (t, Inr ())"
  shows "(\<exists>s g n ps. VaultsCreateOrUpdate s g n ps \<in> set t) \<longleftrightarrow> kv \<notin> set vs"
proof -
  from c obtain t1 ex t2 where d: "discover_keyvault env sub kv = (t1, Inr ex)"
    and k: "(if \<not> ex then create_keyvault env sub rg kv loc else ret ()) = (t2, Inr ())"
    and t: "t = t1 @ t2"
    unfolding ensure_keyvault_def by (rule bind_prog_completed)
  have ex: "ex = (kv \<in> set vs)" using d discover_keyvault_snd[OF vl, of kv] by simp
  have t1: "\<And>s g n ps. VaultsCreateOrUpdate s g n ps \<notin> set t1"
    using d discover_keyvault_events[of _ env sub kv] by fastforce
  show ?thesis
  proof (cases "kv \<in> set vs")
    case True
    then have "t2 = []" using k ex by (simp add: ret_def)
    then show ?thesis using True t t1 by simp
  next
    case False
    then have "create_keyvault env sub rg kv loc = (t2, Inr ())" using k ex by simp
    from create_keyvault_completed[OF this] show ?thesis using False t by auto
  qed
qed

lemma prelude_vault_creation:
  assumes vl: "vaults_list env sub = Inr vs"
    and p: "prelude env v sub = (t, Inr ())"
  shows "(\<exists>s g n ps. VaultsCreateOrUpdate s g n ps \<in> set t) \<longleftrightarrow> keyvault_name_of v \<notin> set vs"
proof -
  from p obtain ta tb where a: "service_principal_credentials env = (ta, Inr ())"
    and b: "bind_prog (client_secret_credential env) (\<lambda>_.
     bind_prog (call (ProvidersRegister sub ''Microsoft.KeyVault'')
                     (providers_register env sub ''Microsoft.KeyVault'')) (\<lambda>_.
     bind_prog (ensure_resource_group env sub (resource_group_of v) (location v)) (\<lambda>_.
     ensure_keyvault env sub (resource_group_of v) (keyvault_name_of v) (location v))))
       = (tb, Inr ())"
    and t1: "t = ta @ tb"
    unfolding prelude_def by (rule bind_prog_completed) auto
  from b obtain tc td where c: "client_secret_credential env = (tc, Inr ())"
    and d: "bind_prog (call (ProvidersRegister sub ''Microsoft.KeyVault'')
                     (providers_register env sub ''Microsoft.KeyVault'')) (\<lambda>_.
     bind_prog (ensure_resource_group env sub (resource_group_of v) (location v)) (\<lambda>_.
     ensure_keyvault env sub (resource_group_of v) (keyvault_name_of v) (location v)))
       = (td, Inr ())"
    and t2: "tb = tc @ td"
    by (rule bind_prog_completed) auto
  from d obtain te tf where e: "call (ProvidersRegister sub ''Microsoft.KeyVault'')
                     (providers_register env sub ''Microsoft.KeyVault'') = (te, Inr ())"
    and f: "bind_prog (ensure_resource_group env sub (resource_group_of v) (location v)) (\<lambda>_.
     ensure_keyvault env sub (resource_group_of v) (keyvault_name_of v) (location v))
       = (tf, Inr ())"
    and t3: "td = te @ tf"
    by (rule bind_prog_completed) auto
  from f obtain tg th where g: "ensure_resource_group env sub (resource_group_of v)
      (location v) = (tg, Inr ())"
    and h: "ensure_keyvault env sub (resource_group_of v) (keyvault_name_of v) (location v)
       = (th, Inr ())"
    and t4: "tf = tg @ th"
    by (rule bind_prog_completed) auto
  have na: "\<And>s g n ps. VaultsCreateOrUpdate s g n ps \<notin> set ta"
    using a credentials_events[of _ env] by fastforce
  have nc: "tc = []" using c client_secret_events[of env] by simp
  have ne: "\<And>s g n ps. VaultsCreateOrUpdate s g n ps \<notin> set te"
    using e by (auto simp: call_def)
  have ng: "\<And>s g n ps. VaultsCreateOrUpdate s g n ps \<notin> set tg"
    using g ensure_resource_group_events[of _ env sub "resource_group_of v" "location v"]
    by fastforce
  have "(\<exists>s g n ps. VaultsCreateOrUpdate s g n ps \<in> set t) \<longleftrightarrow>
        (\<exists>s g n ps. VaultsCreateOrUpdate s g n ps \<in> set th)"
    using t1 t2 t3 t4 na nc ne ng by simp
  then show ?thesis using ensure_keyvault_creation[OF vl h] by simp
qed

lemma storage_phase_no_vault_creation:
  assumes "storage_accounts_list env sub = Inr accts"
  shows "VaultsCreateOrUpdate s g n ps \<notin> set (fst (storage_phase env sub rg loc uri cand))"
  using storage_phase_events[OF assms, of "VaultsCreateOrUpdate s g n ps" rg loc uri cand]
  by auto

text \<open>
  Claim C1. In a run that reaches the storage account discovery, with \<open>vs\<close> the listed
  vault names and \<open>accts\<close> the listed storage account names: the vault is treated as
  existing exactly when some listed name equals \<open>orgName\<close> followed by \<open>-tfstate-kv\<close>,
  and a vault creation call is made exactly when none does; a storage account is treated
  as existing exactly when some listed name has \<open>tfstate\<close> somewhere inside it, the
  build branch (the availability check) is entered exactly when none has, and an account
  creation call is made exactly when none has and the candidate name is available.
\<close>

theorem discovery_match_policies:
  assumes run: "azure_state_setup env v sub rnd = (tr, out)"
    and vl: "vaults_list env sub = Inr vs"
    and sl: "storage_accounts_list env sub = Inr accts"
    and reached: "StorageAccountsList sub \<in> set tr"
  shows "snd (discover_keyvault env sub (keyvault_name_of v)) =
           Inr (\<exists>x\<in>set vs. x = orgName v @ ''-tfstate-kv'') \<and>
         ((\<exists>s g n ps. VaultsCreateOrUpdate s g n ps \<in> set tr) \<longleftrightarrow>
            \<not> (\<exists>x\<in>set vs. x = orgName v @ ''-tfstate-kv'')) \<and>
         (\<exists>name. snd (discover_storage_account env sub
                        (orgName v @ ''tfstate'' @ suffix_of rnd)) =
            Inr (name, \<exists>a\<in>set accts. \<exists>p q. a = p @ ''tfstate'' @ q)) \<and>
         (CheckNameAvailability sub (orgName v @ ''tfstate'' @ suffix_of rnd) \<in> set tr \<longleftrightarrow>
            \<not> (\<exists>a\<in>set accts. \<exists>p q. a = p @ ''tfstate'' @ q)) \<and>
         ((\<exists>s g n ps. StorageAccountsCreate s g n ps \<in> set tr) \<longleftrightarrow>
            \<not> (\<exists>a\<in>set accts. \<exists>p q. a = p @ ''tfstate'' @ q) \<and>
            check_name_availability env sub (orgName v @ ''tfstate'' @ suffix_of rnd) =
              Inr True)"
proof -
  let ?cand = "orgName v @ ''tfstate'' @ suffix_of rnd"
  let ?rg = "resource_group_of v"
  let ?sp = "storage_phase env sub ?rg (location v) (vault_uri_of v) ?cand"
  let ?match = "\<exists>a\<in>set accts. \<exists>p q. a = p @ ''tfstate'' @ q"
  have kvn: "(\<exists>x\<in>set vs. x = orgName v @ ''-tfstate-kv'') \<longleftrightarrow> keyvault_name_of v \<in> set vs"
    by (auto simp: keyvault_name_of_def)
  have match: "?match \<longleftrightarrow> tfstate_accounts accts \<noteq> []"
    using no_match_iff[of accts] by (auto simp: str_in_iff)
  have "StorageAccountsList sub \<in> set (fst (azure_state_setup env v sub rnd))"
    using run reached by simp
  then obtain t where p: "prelude env v sub = (t, Inr ())"
    using storage_event_in_run[of "StorageAccountsList sub" env v sub rnd] by auto
  have r: "azure_state_setup env v sub rnd = (t @ fst ?sp, snd ?sp)"
    by (rule run_after_prelude[OF p])
  then have tr: "tr = t @ fst ?sp" using run by simp
  have t: "ev \<in> set t \<Longrightarrow> \<not> storage_event ev" for ev
    using prelude_no_storage_event[of ev env v sub] p by simp
  from sl obtain D where d: "discover_storage_account env sub ?cand =
       (D, Inr (resolved_name accts ?cand, tfstate_accounts accts \<noteq> []))"
    and D: "\<And>ev. ev \<in> set D \<Longrightarrow> ev = StorageAccountsList sub \<or> (\<exists>s. ev = Print s)"
    and "StorageAccountsList sub \<in> set D"
    by (rule discover_storage_obtain[where cand = ?cand]) blast
  let ?ad = "after_discovery env sub ?rg (location v) (vault_uri_of v)
               (resolved_name accts ?cand) (tfstate_accounts accts \<noteq> [])"
  have spe: "fst ?sp = D @ fst ?ad" using d by (simp add: storage_phase_def)
  have 1: "snd (discover_keyvault env sub (keyvault_name_of v)) =
           Inr (\<exists>x\<in>set vs. x = orgName v @ ''-tfstate-kv'')"
    using discover_keyvault_snd[OF vl, of "keyvault_name_of v"] kvn by simp
  have 2: "(\<exists>s g n ps. VaultsCreateOrUpdate s g n ps \<in> set tr) \<longleftrightarrow>
            \<not> (\<exists>x\<in>set vs. x = orgName v @ ''-tfstate-kv'')"
    using prelude_vault_creation[OF vl p] storage_phase_no_vault_creation[OF sl] tr kvn
    by auto
  have 3: "\<exists>name. snd (discover_storage_account env sub ?cand) = Inr (name, ?match)"
    using d match by simp
  have 4: "CheckNameAvailability sub ?cand \<in> set tr \<longleftrightarrow> \<not> ?match"
  proof (cases "tfstate_accounts accts = []")
    case True
    then have "CheckNameAvailability sub ?cand \<in> set (fst ?ad)"
      using after_discovery_checks[of sub ?cand env ?rg "location v" "vault_uri_of v"]
      by (simp add: resolved_name_def)
    then show ?thesis using True match tr spe by simp
  next
    case False
    have "CheckNameAvailability sub ?cand \<notin> set t"
      using t[of "CheckNameAvailability sub ?cand"] by auto
    moreover have "CheckNameAvailability sub ?cand \<notin> set (fst ?sp)"
      using storage_phase_events[OF sl, of "CheckNameAvailability sub ?cand"
          ?rg "location v" "vault_uri_of v" ?cand] False
      by auto
    ultimately show ?thesis using False match tr by simp
  qed
  have 5: "(\<exists>s g n ps. StorageAccountsCreate s g n ps \<in> set tr) \<longleftrightarrow>
            \<not> ?match \<and> check_name_availability env sub ?cand = Inr True"
  proof
    assume "\<exists>s g n ps. StorageAccountsCreate s g n ps \<in> set tr"
    then obtain s g n ps where c: "StorageAccountsCreate s g n ps \<in> set tr" by blast
    have "StorageAccountsCreate s g n ps \<notin> set t"
      using t[of "StorageAccountsCreate s g n ps"] by auto
    then have sp: "StorageAccountsCreate s g n ps \<in> set (fst ?sp)" using c tr by simp
    from storage_phase_events[OF sl sp] have ms: "tfstate_accounts accts = []" by auto
    have "StorageAccountsCreate s g n ps \<notin> set D"
      using D[of "StorageAccountsCreate s g n ps"] by auto
    then have "StorageAccountsCreate s g n ps \<in> set (fst (after_discovery env sub ?rg
        (location v) (vault_uri_of v) ?cand False))"
      using sp spe ms by (simp add: resolved_name_def)
    then have "check_name_availability env sub ?cand = Inr True"
      by (rule after_discovery_create_needs_available)
    then show "\<not> ?match \<and> check_name_availability env sub ?cand = Inr True"
      using ms match by simp
  next
    assume a: "\<not> ?match \<and> check_name_availability env sub ?cand = Inr True"
    then have ms: "tfstate_accounts accts = []" using match by simp
    from a after_discovery_created[of env sub ?cand ?rg "location v" "vault_uri_of v"]
    obtain before rest where "fst (after_discovery env sub ?rg (location v) (vault_uri_of v)
        ?cand False) = before @ [StorageAccountsCreate sub ?rg ?cand
          \<lparr>sku = standard_ragrs, kind = storage, sa_location = location v\<rparr>] @ rest"
      by blast
    then have "StorageAccountsCreate sub ?rg ?cand
          \<lparr>sku = standard_ragrs, kind = storage, sa_location = location v\<rparr> \<in> set tr"
      using tr spe ms by (simp add: resolved_name_def)
    then show "\<exists>s g n ps. StorageAccountsCreate s g n ps \<in> set tr" by blast
  qed
  show ?thesis using 1 2 3 4 5 by blast
qed

lemma near_miss_run:
  "StorageAccountsList ''ops''
     \<in> set (fst (azure_state_setup near_miss_subscription acme ''ops'' (\<lambda>k. k)))"
  by (simp add: run_defs near_miss_subscription_def fresh_subscription_def acme_def)

theorem discovery_match_policies_witness:
  "vaults_list near_miss_subscription ''ops'' = Inr [''xacme-tfstate-kv''] \<and>
   storage_accounts_list near_miss_subscription ''ops'' = Inr [''oldtfstatebackup''] \<and>
   StorageAccountsList ''ops''
     \<in> set (fst (azure_state_setup near_miss_subscription acme ''ops'' (\<lambda>k. k))) \<and>
   (\<exists>s g n ps. VaultsCreateOrUpdate s g n ps
      \<in> set (fst (azure_state_setup near_miss_subscription acme ''ops'' (\<lambda>k. k)))) \<and>
   CheckNameAvailability ''ops'' ''acmetfstateabcdef''
     \<notin> set (fst (azure_state_setup near_miss_subscription acme ''ops'' (\<lambda>k. k))) \<and>
   \<not> (\<exists>s g n ps. StorageAccountsCreate s g n ps
      \<in> set (fst (azure_state_setup near_miss_subscription acme ''ops'' (\<lambda>k. k))))"
proof -
  let ?run = "azure_state_setup near_miss_subscription acme ''ops'' (\<lambda>k. k)"
  have h: "?run = (fst ?run, snd ?run)" by simp
  have vl: "vaults_list near_miss_subscription ''ops'' = Inr [''xacme-tfstate-kv'']"
    and sl: "storage_accounts_list near_miss_subscription ''ops'' = Inr [''oldtfstatebackup'']"
    by (simp_all add: near_miss_subscription_def fresh_subscription_def)
  have nv: "\<not> (\<exists>x\<in>set [''xacme-tfstate-kv'']. x = orgName acme @ ''-tfstate-kv'')"
    by (simp add: acme_def)
  have "str_in ''tfstate'' ''oldtfstatebackup''" by simp
  then have ms: "\<exists>a\<in>set [''oldtfstatebackup'']. \<exists>p q. a = p @ ''tfstate'' @ q"
    unfolding str_in_iff by simp
  have c: "orgName acme @ ''tfstate'' @ suffix_of (\<lambda>k. k) = ''acmetfstateabcdef''"
    by (rule acme_candidate)
  from discovery_match_policies[OF h vl sl near_miss_run, unfolded c]
  show ?thesis using vl sl near_miss_run nv ms by blast
qed

lemma scan_storage_fst_indep:
  "fst (scan_storage_accounts accts st) = fst (scan_storage_accounts accts st')"
proof (induction accts arbitrary: st st')
  case Nil
  then show ?case by (simp add: ret_def)
next
  case (Cons a accts)
  obtain n e where st: "st = (n, e)" by (cases st)
  obtain n' e' where st': "st' = (n', e')" by (cases st')
  show ?case
    using Cons.IH[of "(n, e)" "(n', e')"]
    by (simp add: st st' print_def)
qed

lemma discover_storage_fst_indep:
  "fst (discover_storage_account env sub c) = fst (discover_storage_account env sub c')"
  using scan_storage_fst_indep
  by (cases "storage_accounts_list env sub")
     (auto simp: discover_storage_account_def call_def ret_def fst_bind_prog)

lemma storage_phase_indep:
  assumes l: "storage_accounts_list env sub = Inr accts" and m: "tfstate_accounts accts \<noteq> []"
  shows "storage_phase env sub rg loc uri c = storage_phase env sub rg loc uri c'"
proof -
  have "discover_storage_account env sub c = discover_storage_account env sub c'"
    using discover_storage_eq[OF l, of c] discover_storage_eq[OF l, of c'] m
      discover_storage_fst_indep[of env sub c c']
    by (simp add: resolved_name_def)
  then show ?thesis by (simp add: storage_phase_def)
qed

lemma ensure_resource_group_exists:
  "rg_check_existence env sub rg = Inr True \<Longrightarrow>
   ensure_resource_group env sub rg loc = ([RgCheckExistence sub rg], Inr ())"
  by (simp add: ensure_resource_group_def call_def ret_def)

lemma ensure_keyvault_exists:
  assumes vl: "vaults_list env sub = Inr vs" and kv: "kv \<in> set vs"
  shows "ensure_keyvault env sub rg kv loc = (fst (discover_keyvault env sub kv), Inr ())"
proof -
  obtain D where d: "discover_keyvault env sub kv = (D, Inr True)"
    using discover_keyvault_snd[OF vl, of kv] kv
    by (cases "discover_keyvault env sub kv") auto
  have "ensure_keyvault env sub rg kv loc = (D, Inr ())"
    by (simp add: ensure_keyvault_def d ret_def)
  then show ?thesis using d by simp
qed

lemma prelude_settled_no_creation:
  assumes rg: "rg_check_existence env sub (resource_group_of v) = Inr True"
    and vl: "vaults_list env sub = Inr vs" and kv: "keyvault_name_of v \<in> set vs"
    and ev: "ev \<in> set (fst (prelude env v sub))"
  shows "\<not> is_creation ev"
  using ev unfolding prelude_def in_fst_bind_prog client_secret_events
    ensure_resource_group_exists[OF rg] ensure_keyvault_exists[OF vl kv]
  by (auto simp: call_def dest: credentials_events discover_keyvault_events)

lemma confirm_container_no_creation:
  assumes c: "\<forall>key cs. list_containers env n key = Inr cs \<longrightarrow> ''tfstate'' \<in> set cs"
    and ev: "ev \<in> set (fst (confirm_container env sub rg n))"
  shows "\<not> is_creation ev"
  using ev c
  by (auto simp: confirm_container_def in_fst_bind_prog fetch_keys_eq subscript_def raise_def
      ret_def call_def print_def split: if_splits option.splits)

lemma after_discovery_no_creation:
  assumes c: "\<forall>key cs. list_containers env n key = Inr cs \<longrightarrow> ''tfstate'' \<in> set cs"
    and ev: "ev \<in> set (fst (after_discovery env sub rg loc uri n True))"
  shows "\<not> is_creation ev"
proof -
  from ev consider "ev \<in> set (fst (confirm_container env sub rg n))"
    | keys where "ev \<in> set (fst (store_keys env uri keys n))"
    unfolding after_discovery_def in_fst_bind_prog
    by (auto simp: ret_def in_fst_bind_prog split: option.splits)
  then show ?thesis
  proof cases
    case 1
    then show ?thesis by (rule confirm_container_no_creation[OF c])
  next
    case 2
    from store_keys_events[OF this] show ?thesis by auto
  qed
qed

text \<open>
  Claim C4, as amended. In a subscription where the resource group exists, a vault of
  the exact derived name is listed, some listed storage account name contains
  \<open>tfstate\<close>, and the last such account in listing order has a \<open>tfstate\<close> container, a
  run makes no creation call at all. The run does not depend on the random candidate
  name, so a second run against the same subscription does what the first did; when it
  returns, it returns the name of that last matching account and its \<open>key1\<close> and \<open>key2\<close>.
\<close>

theorem settled_run_creates_nothing:
  assumes rg: "rg_check_existence env sub (resource_group_of v) = Inr True"
    and vl: "vaults_list env sub = Inr vs"
    and kv: "keyvault_name_of v \<in> set vs"
    and sl: "storage_accounts_list env sub = Inr accts"
    and m: "tfstate_accounts accts \<noteq> []"
    and c: "\<forall>key cs. list_containers env (last (tfstate_accounts accts)) key = Inr cs \<longrightarrow>
              ''tfstate'' \<in> set cs"
  shows "filter is_creation (fst (azure_state_setup env v sub rnd)) = [] \<and>
         azure_state_setup env v sub rnd' = azure_state_setup env v sub rnd \<and>
         (\<forall>r. snd (azure_state_setup env v sub rnd) = Inr r \<longrightarrow>
            (\<exists>kvs k1 k2.
               list_keys env sub (resource_group_of v) (last (tfstate_accounts accts)) =
                 Inr kvs \<and>
               keys_dict kvs ''key1'' = Some k1 \<and> keys_dict kvs ''key2'' = Some k2 \<and>
               r = Some (k1, k2, last (tfstate_accounts accts))))"
proof (intro conjI allI impI)
  let ?cand = "orgName v @ ''tfstate'' @ suffix_of rnd"
  let ?sp = "storage_phase env sub (resource_group_of v) (location v) (vault_uri_of v) ?cand"
  have res: "resolved_name accts ?cand = last (tfstate_accounts accts)"
    using m by (simp add: resolved_name_def)
  from sl obtain D where d: "discover_storage_account env sub ?cand =
       (D, Inr (resolved_name accts ?cand, tfstate_accounts accts \<noteq> []))"
    and D: "\<And>ev. ev \<in> set D \<Longrightarrow> ev = StorageAccountsList sub \<or> (\<exists>s. ev = Print s)"
    and "StorageAccountsList sub \<in> set D"
    by (rule discover_storage_obtain[where cand = ?cand]) blast
  have spe: "fst ?sp = D @ fst (after_discovery env sub (resource_group_of v) (location v)
      (vault_uri_of v) (last (tfstate_accounts accts)) True)"
    using d m res by (simp add: storage_phase_def)
  have "\<not> is_creation ev" if "ev \<in> set (fst (azure_state_setup env v sub rnd))" for ev
  proof -
    from that consider "ev \<in> set (fst (prelude env v sub))" | "ev \<in> set (fst ?sp)"
      unfolding run_trace by (auto split: sum.splits)
    then show ?thesis
    proof cases
      case 1
      then show ?thesis by (rule prelude_settled_no_creation[OF rg vl kv])
    next
      case 2
      then consider "ev \<in> set D"
        | "ev \<in> set (fst (after_discovery env sub (resource_group_of v) (location v)
            (vault_uri_of v) (last (tfstate_accounts accts)) True))"
        using spe by auto
      then show ?thesis
      proof cases
        case 1
        from D[OF this] show ?thesis by auto
      next
        case 2
        then show ?thesis by (rule after_discovery_no_creation[OF c])
      qed
    qed
  qed
  then show "filter is_creation (fst (azure_state_setup env v sub rnd)) = []"
    by (simp add: filter_empty_conv)
next
  show "azure_state_setup env v sub rnd' = azure_state_setup env v sub rnd"
    unfolding azure_state_setup_split
    using storage_phase_indep[OF sl m, of "resource_group_of v" "location v" "vault_uri_of v"
        "orgName v @ ''tfstate'' @ suffix_of rnd'" "orgName v @ ''tfstate'' @ suffix_of rnd"]
    by simp
next
  fix r assume "snd (azure_state_setup env v sub rnd) = Inr r"
  then have "azure_state_setup env v sub rnd = (fst (azure_state_setup env v sub rnd), Inr r)"
    by (simp add: prod_eq_iff)
  then obtain t1 t2 where
    s: "storage_phase env sub (resource_group_of v) (location v) (vault_uri_of v)
              (orgName v @ ''tfstate'' @ suffix_of rnd) = (t2, Inr r)"
    by (rule run_completed)
  have res: "resolved_name accts (orgName v @ ''tfstate'' @ suffix_of rnd) =
      last (tfstate_accounts accts)"
    using m by (simp add: resolved_name_def)
  from storage_phase_completed[OF s] sl m res
  show "\<exists>kvs k1 k2.
               list_keys env sub (resource_group_of v) (last (tfstate_accounts accts)) =
                 Inr kvs \<and>
               keys_dict kvs ''key1'' = Some k1 \<and> keys_dict kvs ''key2'' = Some k2 \<and>
               r = Some (k1, k2, last (tfstate_accounts accts))"
    by auto
qed


theorem settled_run_creates_nothing_witness:
  "rg_check_existence settled_subscription ''ops'' (resource_group_of acme) = Inr True \<and>
   vaults_list settled_subscription ''ops'' = Inr [''acme-tfstate-kv''] \<and>
   keyvault_name_of acme \<in> set [''acme-tfstate-kv''] \<and>
   storage_accounts_list settled_subscription ''ops'' = Inr [''other'', ''acmetfstateabcdef''] \<and>
   tfstate_accounts [''other'', ''acmetfstateabcdef''] = [''acmetfstateabcdef''] \<and>
   filter is_creation (fst (azure_state_setup settled_subscription acme ''ops'' (\<lambda>k. k))) = [] \<and>
   azure_state_setup settled_subscription acme ''ops'' (\<lambda>k. 25) =
     azure_state_setup settled_subscription acme ''ops'' (\<lambda>k. k)"
proof -
  have rg: "rg_check_existence settled_subscription ''ops'' (resource_group_of acme) = Inr True"
    and vl: "vaults_list settled_subscription ''ops'' = Inr [''acme-tfstate-kv'']"
    and sl: "storage_accounts_list settled_subscription ''ops'' =
               Inr [''other'', ''acmetfstateabcdef'']"
    by (simp_all add: settled_subscription_def fresh_subscription_def)
  have kv: "keyvault_name_of acme \<in> set [''acme-tfstate-kv'']"
    by (simp add: keyvault_name_of_def acme_def)
  have t: "tfstate_accounts [''other'', ''acmetfstateabcdef''] = [''acmetfstateabcdef'']"
    by (simp add: tfstate_accounts_def)
  have m: "tfstate_accounts [''other'', ''acmetfstateabcdef''] \<noteq> []" using t by simp
  have c: "\<forall>key cs. list_containers settled_subscription
      (last (tfstate_accounts [''other'', ''acmetfstateabcdef''])) key = Inr cs \<longrightarrow>
      ''tfstate'' \<in> set cs"
    by (auto simp: settled_subscription_def fresh_subscription_def)
  from settled_run_creates_nothing[OF rg vl kv sl m c, of "\<lambda>k. k" "\<lambda>k. 25"]
  show ?thesis using rg vl kv sl t by blast
qed

theorem crowded_run_creates_container:
  "rg_check_existence crowded_subscription ''ops'' ''acme-tfstate-rg'' = Inr True \<and>
   vaults_list crowded_subscription ''ops'' = Inr [''acme-tfstate-kv''] \<and>
   storage_accounts_list crowded_subscription ''ops'' =
     Inr [''acmetfstateabcdef'', ''oldtfstatebackup''] \<and>
   str_in ''tfstate'' ''acmetfstateabcdef'' \<and>
   list_containers crowded_subscription ''acmetfstateabcdef'' ''K1acmetfstateabcdef'' =
     Inr [''tfstate''] \<and>
   filter is_creation (fst (azure_state_setup crowded_subscription acme ''ops'' (\<lambda>k. k))) =
     [BlobContainersCreate ''ops'' ''acme-tfstate-rg'' ''oldtfstatebackup'' ''tfstate'']"
  by (simp add: run_defs crowded_subscription_def settled_subscription_def
      fresh_subscription_def acme_def)

section \<open>Facts about runs of azure_peering\<close>

lemma peering_credentials_events:
  "ev \<in> set (fst (peering_credentials env)) \<Longrightarrow> \<exists>c s t. ev = SpLogin c s t"
  by (auto simp: peering_credentials_def getenv_def raise_def ret_def call_def
      split: option.splits)

lemma get_vnets_events:
  "ev \<in> set (fst (get_vnets env sub1 rg1 vnet1 sub2 rg2 vnet2)) \<Longrightarrow>
   \<exists>s g n. ev = VirtualNetworksGet s g n"
  by (auto simp: get_vnets_def in_fst_bind_prog call_def ret_def)

lemma before_try_events:
  "ev \<in> set (fst (before_try env sub1 rg1 vnet1 sub2 rg2 vnet2)) \<Longrightarrow> \<not> is_peering_call ev"
  by (auto simp: before_try_def in_fst_bind_prog
      dest: peering_credentials_events get_vnets_events)

lemma before_try_completed:
  assumes "before_try env sub1 rg1 vnet1 sub2 rg2 vnet2 = (t, Inr (o1, o2))"
  shows "virtual_networks_get env sub1 rg1 vnet1 = Inr o1 \<and>
         virtual_networks_get env sub2 rg2 vnet2 = Inr o2"
proof -
  from assms obtain t1 u t2 where
    g: "get_vnets env sub1 rg1 vnet1 sub2 rg2 vnet2 = (t2, Inr (o1, o2))"
    unfolding before_try_def by (rule bind_prog_completed)
  then show ?thesis
    by (auto simp: get_vnets_def call_def ret_def bind_prog_def split: sum.splits)
qed

lemma poll_trace_no_peering_call: "filter is_peering_call (poll_trace p k n) = []"
  by (induction n arbitrary: k) auto

lemma wait_peering_result:
  assumes "wait_peering p 0 [] = Some polled"
  shows "\<exists>n. polled = poll_trace p 0 n"
proof -
  from wait_peering_Some[OF assms] obtain k where k: "poll_done p k" by auto
  define m where "m = (LEAST k. poll_done p k)"
  have "poll_done p m" unfolding m_def using k by (rule LeastI)
  moreover have "\<forall>j<m. \<not> poll_done p j" unfolding m_def using not_less_Least by blast
  ultimately have "wait_peering p 0 [] = Some ([] @ poll_trace p 0 m)"
    using wait_peering_done[of p 0 m "[]"] by simp
  with assms show ?thesis by auto
qed

lemma get1_cloud_error_escapes:
  assumes "peering_credentials env = (tc, Inr ())"
    and "virtual_networks_get env sub1 rg1 vnet1 = Inl (CloudError msg)"
  shows "azure_peering env sub1 rg1 vnet1 sub2 rg2 vnet2 =
           Some (tc @ [VirtualNetworksGet sub1 rg1 vnet1], Inl (CloudError msg))"
  using assms by (simp add: azure_peering_def before_try_def get_vnets_def call_def)

lemma get2_cloud_error_escapes:
  assumes "peering_credentials env = (tc, Inr ())"
    and "virtual_networks_get env sub1 rg1 vnet1 = Inr vnet1_obj"
    and "virtual_networks_get env sub2 rg2 vnet2 = Inl (CloudError msg)"
  shows "azure_peering env sub1 rg1 vnet1 sub2 rg2 vnet2 =
           Some (tc @ [VirtualNetworksGet sub1 rg1 vnet1, VirtualNetworksGet sub2 rg2 vnet2],
                 Inl (CloudError msg))"
  using assms by (simp add: azure_peering_def before_try_def get_vnets_def call_def)

lemma escaped_cloud_error_before_try:
  assumes a: "azure_peering env sub1 rg1 vnet1 sub2 rg2 vnet2 = Some (tr, Inl (CloudError msg))"
  shows "before_try env sub1 rg1 vnet1 sub2 rg2 vnet2 = (tr, Inl (CloudError msg)) \<and>
         filter is_peering_call tr = []"
proof -
  have ex: "snd (except_cloud_error body) \<noteq> Inl (CloudError m)" for body m
    by (cases body rule: except_cloud_error.cases) auto
  obtain t0 r0 where b: "before_try env sub1 rg1 vnet1 sub2 rg2 vnet2 = (t0, r0)"
    by (cases "before_try env sub1 rg1 vnet1 sub2 rg2 vnet2")
  have eq: "before_try env sub1 rg1 vnet1 sub2 rg2 vnet2 = (tr, Inl (CloudError msg))"
  proof (cases r0)
    case (Inl e)
    then show ?thesis using a b by (simp add: azure_peering_def)
  next
    case (Inr objs)
    obtain o1 o2 where o: "objs = (o1, o2)" by (cases objs)
    show ?thesis
    proof (cases "try_peering env sub1 rg1 vnet1 o2")
      case None
      then show ?thesis using a b Inr o by (simp add: azure_peering_def)
    next
      case (Some body)
      obtain t' r' where e: "except_cloud_error body = (t', r')"
        by (cases "except_cloud_error body")
      then have "r' \<noteq> Inl (CloudError msg)" using ex[of body msg] by simp
      then show ?thesis using a b Inr o Some e by (simp add: azure_peering_def)
    qed
  qed
  have "\<not> is_peering_call ev" if "ev \<in> set tr" for ev
    using before_try_events[of ev env sub1 rg1 vnet1 sub2 rg2 vnet2] that eq by simp
  then have "filter is_peering_call tr = []" by (simp add: filter_empty_conv)
  with eq show ?thesis by simp
qed

text \<open>
  Claim C5, as amended. Once the credentials are built: a cloud error raised by the
  first \<open>virtual_networks.get\<close> call, or by the second after the first succeeded, is not
  caught, both calls standing before the \<open>try\<close>: it leaves the function right after
  that call, nothing printed and no peering call made. When both virtual networks are
  read, a cloud error raised by the peering creation call, the provider call inside the
  \<open>try\<close>, is caught: its message is printed and the function returns normally. And
  every cloud error that leaves the function was raised before the \<open>try\<close>, no
  peering call made.
\<close>

theorem peering_cloud_error_caught:
  "(before_try env sub1 rg1 vnet1 sub2 rg2 vnet2 = (t, Inr (vnet1_obj, vnet2_obj)) \<and>
    peering_create_or_update env sub1 rg1 vnet1 ''hubpeering''
      (hubpeering_params vnet2_obj) = Inl (CloudError msg) \<longrightarrow>
    azure_peering env sub1 rg1 vnet1 sub2 rg2 vnet2 =
      Some (t @ [PeeringCreateOrUpdate sub1 rg1 vnet1 ''hubpeering''
                   (hubpeering_params vnet2_obj), Print msg], Inr ())) \<and>
   (peering_credentials env = (tc, Inr ()) \<and>
    virtual_networks_get env sub1 rg1 vnet1 = Inl (CloudError msg) \<longrightarrow>
    azure_peering env sub1 rg1 vnet1 sub2 rg2 vnet2 =
      Some (tc @ [VirtualNetworksGet sub1 rg1 vnet1], Inl (CloudError msg))) \<and>
   (peering_credentials env = (tc, Inr ()) \<and>
    virtual_networks_get env sub1 rg1 vnet1 = Inr vnet1_obj \<and>
    virtual_networks_get env sub2 rg2 vnet2 = Inl (CloudError msg) \<longrightarrow>
    azure_peering env sub1 rg1 vnet1 sub2 rg2 vnet2 =
      Some (tc @ [VirtualNetworksGet sub1 rg1 vnet1, VirtualNetworksGet sub2 rg2 vnet2],
            Inl (CloudError msg))) \<and>
   (azure_peering env sub1 rg1 vnet1 sub2 rg2 vnet2 = Some (tr, Inl (CloudError msg)) \<longrightarrow>
    before_try env sub1 rg1 vnet1 sub2 rg2 vnet2 = (tr, Inl (CloudError msg)) \<and>
    filter is_peering_call tr = [])"
proof (intro conjI)
  show "before_try env sub1 rg1 vnet1 sub2 rg2 vnet2 = (t, Inr (vnet1_obj, vnet2_obj)) \<and>
    peering_create_or_update env sub1 rg1 vnet1 ''hubpeering''
      (hubpeering_params vnet2_obj) = Inl (CloudError msg) \<longrightarrow>
    azure_peering env sub1 rg1 vnet1 sub2 rg2 vnet2 =
      Some (t @ [PeeringCreateOrUpdate sub1 rg1 vnet1 ''hubpeering''
                   (hubpeering_params vnet2_obj), Print msg], Inr ())"
    by (simp add: azure_peering_def try_peering_def)
  show "peering_credentials env = (tc, Inr ()) \<and>
    virtual_networks_get env sub1 rg1 vnet1 = Inl (CloudError msg) \<longrightarrow>
    azure_peering env sub1 rg1 vnet1 sub2 rg2 vnet2 =
      Some (tc @ [VirtualNetworksGet sub1 rg1 vnet1], Inl (CloudError msg))"
    using get1_cloud_error_escapes[of env tc sub1 rg1 vnet1 msg sub2 rg2 vnet2] by blast
  show "peering_credentials env = (tc, Inr ()) \<and>
    virtual_networks_get env sub1 rg1 vnet1 = Inr vnet1_obj \<and>
    virtual_networks_get env sub2 rg2 vnet2 = Inl (CloudError msg) \<longrightarrow>
    azure_peering env sub1 rg1 vnet1 sub2 rg2 vnet2 =
      Some (tc @ [VirtualNetworksGet sub1 rg1 vnet1, VirtualNetworksGet sub2 rg2 vnet2],
            Inl (CloudError msg))"
    using get2_cloud_error_escapes[of env tc sub1 rg1 vnet1 vnet1_obj sub2 rg2 vnet2 msg]
    by blast
  show "azure_peering env sub1 rg1 vnet1 sub2 rg2 vnet2 = Some (tr, Inl (CloudError msg)) \<longrightarrow>
    before_try env sub1 rg1 vnet1 sub2 rg2 vnet2 = (tr, Inl (CloudError msg)) \<and>
    filter is_peering_call tr = []"
    using escaped_cloud_error_before_try[of env sub1 rg1 vnet1 sub2 rg2 vnet2 tr msg]
    by blast
qed

text \<open>
  Claim C6. In a run of \<open>azure_peering\<close> that returns after the peering creation call
  succeeded, with \<open>vnet2_obj\<close> the second virtual network as read: exactly one peering
  call was made, on subscription, resource group and network 1, under the name
  \<open>hubpeering\<close>, with both allow flags true and the address prefixes of network 2 as
  remote address space; the run ends with the completion message; and when network 2 is
  another network than network 1, no peering call names it.
\<close>

theorem peering_created_once_on_vnet1:
  assumes run: "azure_peering env sub1 rg1 vnet1 sub2 rg2 vnet2 = Some (tr, Inr ())"
    and g2: "virtual_networks_get env sub2 rg2 vnet2 = Inr vnet2_obj"
    and ok: "peering_create_or_update env sub1 rg1 vnet1 ''hubpeering''
               (hubpeering_params vnet2_obj) = Inr p"
  shows "filter is_peering_call tr =
           [PeeringCreateOrUpdate sub1 rg1 vnet1 ''hubpeering''
              \<lparr>remote_virtual_network_id = vnet_id vnet2_obj,
               allow_virtual_network_access = True,
               allow_forwarded_traffic = True,
               remote_address_prefixes = address_prefixes vnet2_obj\<rparr>] \<and>
         last tr = Print '' ********** peering completed **********'' \<and>
         ((sub1, rg1, vnet1) \<noteq> (sub2, rg2, vnet2) \<longrightarrow>
            (\<forall>pn ps. PeeringCreateOrUpdate sub2 rg2 vnet2 pn ps \<notin> set tr))"
proof -
  let ?call = "PeeringCreateOrUpdate sub1 rg1 vnet1 ''hubpeering'' (hubpeering_params vnet2_obj)"
  obtain t0 r0 where b: "before_try env sub1 rg1 vnet1 sub2 rg2 vnet2 = (t0, r0)"
    by (cases "before_try env sub1 rg1 vnet1 sub2 rg2 vnet2")
  obtain o1 o2 where r0: "r0 = Inr (o1, o2)"
    using run b by (cases r0) (auto simp: azure_peering_def)
  have "virtual_networks_get env sub2 rg2 vnet2 = Inr o2"
    using before_try_completed[of env sub1 rg1 vnet1 sub2 rg2 vnet2 t0 o1 o2] b r0 by simp
  then have o2: "o2 = vnet2_obj" using g2 by simp
  obtain polled where w: "wait_peering p 0 [] = Some polled"
    using run b r0 o2 ok
    by (cases "wait_peering p 0 []") (auto simp: azure_peering_def try_peering_def)
  have tr: "tr = t0 @ [?call] @ polled @ [Print '' ********** peering completed **********'']"
    using run b r0 o2 ok w by (simp add: azure_peering_def try_peering_def)
  from wait_peering_result[OF w] obtain n where "polled = poll_trace p 0 n" by blast
  then have np: "filter is_peering_call polled = []"
    by (simp add: poll_trace_no_peering_call)
  have "\<not> is_peering_call ev" if "ev \<in> set t0" for ev
    using before_try_events[of ev env sub1 rg1 vnet1 sub2 rg2 vnet2] that b by simp
  then have n0: "filter is_peering_call t0 = []" by (simp add: filter_empty_conv)
  have f: "filter is_peering_call tr = [?call]" using tr n0 np by simp
  have l: "last tr = Print '' ********** peering completed **********''"
    using tr by simp
  have other: "PeeringCreateOrUpdate sub2 rg2 vnet2 pn ps \<notin> set tr"
    if d: "(sub1, rg1, vnet1) \<noteq> (sub2, rg2, vnet2)" for pn ps
  proof
    assume "PeeringCreateOrUpdate sub2 rg2 vnet2 pn ps \<in> set tr"
    then have "PeeringCreateOrUpdate sub2 rg2 vnet2 pn ps \<in> set (filter is_peering_call tr)"
      by simp
    then show False using f d by simp
  qed
  show ?thesis using f l other by (simp add: hubpeering_params_def)
qed

lemmas peering_defs =
  azure_peering_def before_try_def peering_credentials_def get_vnets_def try_peering_def
  hubpeering_params_def getenv_def call_def ret_def raise_def

lemma wait_two_polls:
  "wait_peering \<lparr>poll_done = (\<lambda>k. 2 \<le> k), poll_status = (\<lambda>k. ''InProgress'')\<rparr> 0 [] =
     Some [Sleep 2, Print ''Peering: InProgress'', Sleep 2, Print ''Peering: InProgress'']"
  using wait_peering_done[of "\<lparr>poll_done = (\<lambda>k. 2 \<le> k), poll_status = (\<lambda>k. ''InProgress'')\<rparr>"
      0 2 "[]"]
  by (simp add: numeral_2_eq_2)

lemma refusing_before_try:
  "before_try refusing_subscription ''s1'' ''rg1'' ''hub'' ''s2'' ''rg2'' ''spoke'' =
     ([SpLogin ''cid'' ''pw'' ''tid'', VirtualNetworksGet ''s1'' ''rg1'' ''hub'',
       VirtualNetworksGet ''s2'' ''rg2'' ''spoke''],
      Inr (\<lparr>vnet_id = ''hub'', address_prefixes = [''10.hub.0.0/16'']\<rparr>,
           \<lparr>vnet_id = ''spoke'', address_prefixes = [''10.spoke.0.0/16'']\<rparr>))"
  by (simp add: peering_defs refusing_subscription_def fresh_subscription_def)

lemma missing_vnet_run:
  "azure_peering missing_vnet_subscription ''s1'' ''rg1'' ''hub'' ''s2'' ''rg2'' ''spoke'' =
     Some ([SpLogin ''cid'' ''pw'' ''tid'', VirtualNetworksGet ''s1'' ''rg1'' ''hub''],
           Inl (CloudError ''ResourceNotFound''))"
  by (simp add: peering_defs missing_vnet_subscription_def fresh_subscription_def)

theorem peering_cloud_error_caught_witness:
  "before_try refusing_subscription ''s1'' ''rg1'' ''hub'' ''s2'' ''rg2'' ''spoke'' =
     ([SpLogin ''cid'' ''pw'' ''tid'', VirtualNetworksGet ''s1'' ''rg1'' ''hub'',
       VirtualNetworksGet ''s2'' ''rg2'' ''spoke''],
      Inr (\<lparr>vnet_id = ''hub'', address_prefixes = [''10.hub.0.0/16'']\<rparr>,
           \<lparr>vnet_id = ''spoke'', address_prefixes = [''10.spoke.0.0/16'']\<rparr>)) \<and>
   peering_create_or_update refusing_subscription ''s1'' ''rg1'' ''hub'' ''hubpeering''
     (hubpeering_params \<lparr>vnet_id = ''spoke'', address_prefixes = [''10.spoke.0.0/16'']\<rparr>) =
     Inl (CloudError ''AddressSpaceOverlap'') \<and>
   azure_peering refusing_subscription ''s1'' ''rg1'' ''hub'' ''s2'' ''rg2'' ''spoke'' =
     Some ([SpLogin ''cid'' ''pw'' ''tid'', VirtualNetworksGet ''s1'' ''rg1'' ''hub'',
            VirtualNetworksGet ''s2'' ''rg2'' ''spoke'',
            PeeringCreateOrUpdate ''s1'' ''rg1'' ''hub'' ''hubpeering''
              (hubpeering_params
                 \<lparr>vnet_id = ''spoke'', address_prefixes = [''10.spoke.0.0/16'']\<rparr>),
            Print ''AddressSpaceOverlap''], Inr ()) \<and>
   peering_credentials missing_vnet_subscription = ([SpLogin ''cid'' ''pw'' ''tid''], Inr ()) \<and>
   virtual_networks_get missing_vnet_subscription ''s1'' ''rg1'' ''hub'' =
     Inl (CloudError ''ResourceNotFound'') \<and>
   azure_peering missing_vnet_subscription ''s1'' ''rg1'' ''hub'' ''s2'' ''rg2'' ''spoke'' =
     Some ([SpLogin ''cid'' ''pw'' ''tid'', VirtualNetworksGet ''s1'' ''rg1'' ''hub''],
           Inl (CloudError ''ResourceNotFound'')) \<and>
   peering_credentials missing_spoke_subscription = ([SpLogin ''cid'' ''pw'' ''tid''], Inr ()) \<and>
   virtual_networks_get missing_spoke_subscription ''s1'' ''rg1'' ''hub'' =
     Inr \<lparr>vnet_id = ''hub'', address_prefixes = []\<rparr> \<and>
   virtual_networks_get missing_spoke_subscription ''s2'' ''rg2'' ''spoke'' =
     Inl (CloudError ''ResourceNotFound'') \<and>
   azure_peering missing_spoke_subscription ''s1'' ''rg1'' ''hub'' ''s2'' ''rg2'' ''spoke'' =
     Some ([SpLogin ''cid'' ''pw'' ''tid'', VirtualNetworksGet ''s1'' ''rg1'' ''hub'',
            VirtualNetworksGet ''s2'' ''rg2'' ''spoke''],
           Inl (CloudError ''ResourceNotFound'')) \<and>
   before_try missing_vnet_subscription ''s1'' ''rg1'' ''hub'' ''s2'' ''rg2'' ''spoke'' =
     ([SpLogin ''cid'' ''pw'' ''tid'', VirtualNetworksGet ''s1'' ''rg1'' ''hub''],
      Inl (CloudError ''ResourceNotFound'')) \<and>
   filter is_peering_call
     [SpLogin ''cid'' ''pw'' ''tid'', VirtualNetworksGet ''s1'' ''rg1'' ''hub''] = []"
proof -
  let ?o2 = "\<lparr>vnet_id = ''spoke'', address_prefixes = [''10.spoke.0.0/16'']\<rparr>"
  let ?h = "\<lparr>vnet_id = ''hub'', address_prefixes = []\<rparr>"
  let ?tc = "[SpLogin ''cid'' ''pw'' ''tid'']"
  have e: "peering_create_or_update refusing_subscription ''s1'' ''rg1'' ''hub'' ''hubpeering''
     (hubpeering_params ?o2) = Inl (CloudError ''AddressSpaceOverlap'')"
    by (simp add: refusing_subscription_def fresh_subscription_def)
  have c1: "peering_credentials missing_vnet_subscription = (?tc, Inr ())"
    by (simp add: peering_credentials_def getenv_def call_def ret_def
        missing_vnet_subscription_def fresh_subscription_def)
  have c2: "peering_credentials missing_spoke_subscription = (?tc, Inr ())"
    by (simp add: peering_credentials_def getenv_def call_def ret_def
        missing_spoke_subscription_def fresh_subscription_def)
  have g1: "virtual_networks_get missing_vnet_subscription ''s1'' ''rg1'' ''hub'' =
     Inl (CloudError ''ResourceNotFound'')"
    by (simp add: missing_vnet_subscription_def fresh_subscription_def)
  have g2: "virtual_networks_get missing_spoke_subscription ''s1'' ''rg1'' ''hub'' = Inr ?h"
    by (simp add: missing_spoke_subscription_def fresh_subscription_def)
  have g3: "virtual_networks_get missing_spoke_subscription ''s2'' ''rg2'' ''spoke'' =
     Inl (CloudError ''ResourceNotFound'')"
    by (simp add: missing_spoke_subscription_def fresh_subscription_def)
  have 1: "azure_peering refusing_subscription ''s1'' ''rg1'' ''hub'' ''s2'' ''rg2'' ''spoke'' =
     Some ([SpLogin ''cid'' ''pw'' ''tid'', VirtualNetworksGet ''s1'' ''rg1'' ''hub'',
            VirtualNetworksGet ''s2'' ''rg2'' ''spoke''] @
           [PeeringCreateOrUpdate ''s1'' ''rg1'' ''hub'' ''hubpeering'' (hubpeering_params ?o2),
            Print ''AddressSpaceOverlap''], Inr ())"
    using peering_cloud_error_caught[of refusing_subscription "''s1''" "''rg1''" "''hub''"
        "''s2''" "''rg2''" "''spoke''" _ _ ?o2 "''AddressSpaceOverlap''"]
      refusing_before_try e
    by blast
  have 2: "azure_peering missing_vnet_subscription ''s1'' ''rg1'' ''hub'' ''s2'' ''rg2'' ''spoke'' =
     Some (?tc @ [VirtualNetworksGet ''s1'' ''rg1'' ''hub''],
           Inl (CloudError ''ResourceNotFound''))"
    using peering_cloud_error_caught[of missing_vnet_subscription "''s1''" "''rg1''" "''hub''"
        "''s2''" "''rg2''" "''spoke''" _ _ _ "''ResourceNotFound''" ?tc]
      c1 g1
    by blast
  have 3: "azure_peering missing_spoke_subscription ''s1'' ''rg1'' ''hub'' ''s2'' ''rg2'' ''spoke'' =
     Some (?tc @ [VirtualNetworksGet ''s1'' ''rg1'' ''hub'',
                  VirtualNetworksGet ''s2'' ''rg2'' ''spoke''],
           Inl (CloudError ''ResourceNotFound''))"
    using peering_cloud_error_caught[of missing_spoke_subscription "''s1''" "''rg1''" "''hub''"
        "''s2''" "''rg2''" "''spoke''" _ ?h _ "''ResourceNotFound''" ?tc]
      c2 g2 g3
    by blast
  have 4: "before_try missing_vnet_subscription ''s1'' ''rg1'' ''hub'' ''s2'' ''rg2'' ''spoke'' =
       (?tc @ [VirtualNetworksGet ''s1'' ''rg1'' ''hub''], Inl (CloudError ''ResourceNotFound'')) \<and>
     filter is_peering_call (?tc @ [VirtualNetworksGet ''s1'' ''rg1'' ''hub'']) = []"
    using peering_cloud_error_caught[of missing_vnet_subscription "''s1''" "''rg1''" "''hub''"
        "''s2''" "''rg2''" "''spoke''" _ _ _ "''ResourceNotFound''" _
        "?tc @ [VirtualNetworksGet ''s1'' ''rg1'' ''hub'']"]
      2
    by blast
  show ?thesis using refusing_before_try e c1 c2 g1 g2 g3 1 2 3 4 by simp
qed

theorem vnet_get_cloud_error_propagates:
  "azure_peering missing_vnet_subscription ''s1'' ''rg1'' ''hub'' ''s2'' ''rg2'' ''spoke'' =
     Some ([SpLogin ''cid'' ''pw'' ''tid'', VirtualNetworksGet ''s1'' ''rg1'' ''hub''],
           Inl (CloudError ''ResourceNotFound''))"
  by (simp add: peering_defs missing_vnet_subscription_def fresh_subscription_def)

lemma fresh_peering_run:
  "azure_peering fresh_subscription ''s1'' ''rg1'' ''hub'' ''s2'' ''rg2'' ''spoke'' =
     Some ([SpLogin ''cid'' ''pw'' ''tid'', VirtualNetworksGet ''s1'' ''rg1'' ''hub'',
            VirtualNetworksGet ''s2'' ''rg2'' ''spoke'',
            PeeringCreateOrUpdate ''s1'' ''rg1'' ''hub'' ''hubpeering''
              \<lparr>remote_virtual_network_id = ''spoke'', allow_virtual_network_access = True,
               allow_forwarded_traffic = True,
               remote_address_prefixes = [''10.spoke.0.0/16'']\<rparr>,
            Sleep 2, Print ''Peering: InProgress'', Sleep 2, Print ''Peering: InProgress'',
            Print '' ********** peering completed **********''], Inr ())"
  by (simp add: peering_defs fresh_subscription_def wait_two_polls)

theorem peering_created_once_on_vnet1_witness:
  "azure_peering fresh_subscription ''s1'' ''rg1'' ''hub'' ''s2'' ''rg2'' ''spoke'' =
     Some ([SpLogin ''cid'' ''pw'' ''tid'', VirtualNetworksGet ''s1'' ''rg1'' ''hub'',
            VirtualNetworksGet ''s2'' ''rg2'' ''spoke'',
            PeeringCreateOrUpdate ''s1'' ''rg1'' ''hub'' ''hubpeering''
              \<lparr>remote_virtual_network_id = ''spoke'', allow_virtual_network_access = True,
               allow_forwarded_traffic = True,
               remote_address_prefixes = [''10.spoke.0.0/16'']\<rparr>,
            Sleep 2, Print ''Peering: InProgress'', Sleep 2, Print ''Peering: InProgress'',
            Print '' ********** peering completed **********''], Inr ()) \<and>
   virtual_networks_get fresh_subscription ''s2'' ''rg2'' ''spoke'' =
     Inr \<lparr>vnet_id = ''spoke'', address_prefixes = [''10.spoke.0.0/16'']\<rparr> \<and>
   (''s1'', ''rg1'', ''hub'') \<noteq> (''s2'', ''rg2'', ''spoke'') \<and>
   (\<forall>pn ps. PeeringCreateOrUpdate ''s2'' ''rg2'' ''spoke'' pn ps \<notin> set
      [SpLogin ''cid'' ''pw'' ''tid'', VirtualNetworksGet ''s1'' ''rg1'' ''hub'',
       VirtualNetworksGet ''s2'' ''rg2'' ''spoke'',
       PeeringCreateOrUpdate ''s1'' ''rg1'' ''hub'' ''hubpeering''
         \<lparr>remote_virtual_network_id = ''spoke'', allow_virtual_network_access = True,
          allow_forwarded_traffic = True,
          remote_address_prefixes = [''10.spoke.0.0/16'']\<rparr>,
       Sleep 2, Print ''Peering: InProgress'', Sleep 2, Print ''Peering: InProgress'',
       Print '' ********** peering completed **********''])"
proof -
  let ?o2 = "\<lparr>vnet_id = ''spoke'', address_prefixes = [''10.spoke.0.0/16'']\<rparr>"
  have g2: "virtual_networks_get fresh_subscription ''s2'' ''rg2'' ''spoke'' = Inr ?o2"
    by (simp add: fresh_subscription_def)
  have ok: "peering_create_or_update fresh_subscription ''s1'' ''rg1'' ''hub'' ''hubpeering''
      (hubpeering_params ?o2) =
      Inr \<lparr>poll_done = (\<lambda>k. 2 \<le> k), poll_status = (\<lambda>k. ''InProgress'')\<rparr>"
    by (simp add: fresh_subscription_def)
  have d: "(''s1'', ''rg1'', ''hub'') \<noteq> (''s2'', ''rg2'', ''spoke'')" by simp
  from peering_created_once_on_vnet1[OF fresh_peering_run g2 ok] d
  show ?thesis using fresh_peering_run g2 by blast
qed

end
